theory Spec2Isabelle
  imports Main "HOL-Library.Char_ord" "HOL-Library.List_Lexorder" "HOL-Library.Multiset"
begin

section \<open>The traffic store (electron/main/services/TrafficStorage.ts)\<close>

subsection \<open>Rows of the requests table\<close>

text \<open>
  One row of the table \<^verbatim>\<open>requests\<close>. Integer columns are \<open>int\<close>; text columns are
  strings of 8-bit characters (the UTF-8 bytes SQLite stores); the two body columns may be
  NULL. The header columns hold the JSON text of a record of strings and are kept as the
  association list that text denotes. The columns \<^verbatim>\<open>id\<close>, \<^verbatim>\<open>method\<close> and \<^verbatim>\<open>size\<close> carry a
  suffix because Isabelle uses these names itself.
\<close>

type_synonym headers = "(string \<times> string) list"

record request_row =
  id_col :: int
  timestamp :: int
  method_col :: string
  url :: string
  host :: string
  path :: string
  status :: int
  request_headers :: headers
  request_body :: "string option"
  response_headers :: headers
  response_body :: "string option"
  content_type :: string
  duration :: int
  size_col :: int

text \<open>The second argument of \<^verbatim>\<open>updateResponse\<close>.\<close>

record response_data =
  rd_status :: int
  rd_responseHeaders :: headers
  rd_responseBody :: "string option"
  rd_contentType :: string
  rd_duration :: int
  rd_size :: int

text \<open>
  The object state: \<^verbatim>\<open>this.db\<close> is \<^verbatim>\<open>null\<close> before \<^verbatim>\<open>initialize\<close> and after
  \<^verbatim>\<open>close\<close>; otherwise it is the table, its rows in rowid order.
\<close>

record traffic_storage =
  db :: "request_row list option"

datatype storage_error = Database_not_initialized

subsection \<open>updateResponse\<close>

text \<open>
  \<^verbatim>\<open>UPDATE requests SET status = ?, response_headers = ?, response_body = ?,
  content_type = ?, duration = ?, size = ? WHERE id = ?\<close>: the six columns of every row
  whose id matches are overwritten; the statement has no other condition.
\<close>

definition set_response :: "response_data \<Rightarrow> request_row \<Rightarrow> request_row" where
  "set_response d r =
     r\<lparr>status := rd_status d,
       response_headers := rd_responseHeaders d,
       response_body := rd_responseBody d,
       content_type := rd_contentType d,
       duration := rd_duration d,
       size_col := rd_size d\<rparr>"

definition updateResponse ::
  "int \<Rightarrow> response_data \<Rightarrow> traffic_storage \<Rightarrow> storage_error + traffic_storage" where
  "updateResponse i d s =
     (case db s of
        None \<Rightarrow> Inl Database_not_initialized
      | Some rows \<Rightarrow>
          Inr (s\<lparr>db := Some (map (\<lambda>r. if id_col r = i then set_response d r else r) rows)\<rparr>))"

subsection \<open>deleteOlderThan\<close>

text \<open>
  \<^verbatim>\<open>cutoff = Date.now() - (hours * 60 * 60 * 1000)\<close>, then
  \<^verbatim>\<open>DELETE FROM requests WHERE timestamp < ?\<close>; the result is the statement's count of
  changed rows. The clock reading \<^verbatim>\<open>Date.now()\<close> is the argument \<open>now\<close>, in
  milliseconds. The argument \<open>hours\<close> is a whole number here.
\<close>

definition deleteOlderThan ::
  "int \<Rightarrow> int \<Rightarrow> traffic_storage \<Rightarrow> storage_error + (int \<times> traffic_storage)" where
  "deleteOlderThan now hours s =
     (case db s of
        None \<Rightarrow> Inl Database_not_initialized
      | Some rows \<Rightarrow>
          (let cutoff = now - (hours * 60 * 60 * 1000)
           in Inr (int (length (filter (\<lambda>r. timestamp r < cutoff) rows)),
                   s\<lparr>db := Some (filter (\<lambda>r. \<not> timestamp r < cutoff) rows)\<rparr>)))"

subsection \<open>The three DISTINCT queries\<close>

text \<open>
  \<^verbatim>\<open>SELECT DISTINCT c FROM requests [WHERE c != ''] ORDER BY c\<close>: the distinct values of
  the column, in ascending order of the default (byte-wise) collation.
\<close>

definition select_distinct_ordered :: "string list \<Rightarrow> string list" where
  "select_distinct_ordered vs = sort (remdups vs)"

definition getUniqueHosts :: "traffic_storage \<Rightarrow> storage_error + string list" where
  "getUniqueHosts s =
     (case db s of
        None \<Rightarrow> Inl Database_not_initialized
      | Some rows \<Rightarrow> Inr (select_distinct_ordered (map host rows)))"

definition getUniqueMethods :: "traffic_storage \<Rightarrow> storage_error + string list" where
  "getUniqueMethods s =
     (case db s of
        None \<Rightarrow> Inl Database_not_initialized
      | Some rows \<Rightarrow> Inr (select_distinct_ordered (map method_col rows)))"

definition getUniqueContentTypes :: "traffic_storage \<Rightarrow> storage_error + string list" where
  "getUniqueContentTypes s =
     (case db s of
        None \<Rightarrow> Inl Database_not_initialized
      | Some rows \<Rightarrow>
          Inr (select_distinct_ordered (map content_type (filter (\<lambda>r. content_type r \<noteq> []) rows))))"

subsection \<open>The LIKE operator\<close>

text \<open>
  SQLite's \<^verbatim>\<open>LIKE\<close> with its defaults: \<^verbatim>\<open>%\<close> in the pattern matches any run of
  characters, the empty one included, \<^verbatim>\<open>_\<close> matches any one character, and every other
  character matches itself, upper and lower case of the 26 ASCII letters being equal. No
  escape character is in force, since the statements give none. Characters are bytes here.
\<close>

definition ascii_lower :: "char \<Rightarrow> char" where
  "ascii_lower c =
     (case map_of (zip ''ABCDEFGHIJKLMNOPQRSTUVWXYZ'' ''abcdefghijklmnopqrstuvwxyz'') c of
        None \<Rightarrow> c
      | Some l \<Rightarrow> l)"

fun like :: "string \<Rightarrow> string \<Rightarrow> bool" where
  "like [] s = (s = [])"
| "like (p # ps) s =
     (if p = CHR ''%'' then
        like ps s \<or> (case s of [] \<Rightarrow> False | c # t \<Rightarrow> like (p # ps) t)
      else
        (case s of
           [] \<Rightarrow> False
         | c # t \<Rightarrow> (p = CHR ''_'' \<or> ascii_lower p = ascii_lower c) \<and> like ps t))"

subsection \<open>getRequests and getRequestCount\<close>

text \<open>
  \<^verbatim>\<open>FilterOptions\<close> (declared in shared/types): every field is optional. The fields
  and their types are those \<^verbatim>\<open>getRequests\<close> reads and binds as statement parameters;
  the status codes are numbers, compared with the integer column \<^verbatim>\<open>status\<close>. A date
  range is the pair of its \<^verbatim>\<open>start\<close> and its \<^verbatim>\<open>end\<close>.
\<close>

record filter_options =
  searchQuery :: "string option"
  methods :: "string list option"
  statusCodes :: "int list option"
  hosts :: "string list option"
  contentTypes :: "string list option"
  dateRange :: "(int \<times> int) option"
  limit :: "int option"
  offset :: "int option"

text \<open>\<^verbatim>\<open>(url LIKE ? OR host LIKE ? OR path LIKE ?)\<close>, each parameter being \<^verbatim>\<open>%searchQuery%\<close>.\<close>

definition search_condition :: "string \<Rightarrow> request_row \<Rightarrow> bool" where
  "search_condition q r =
     (let query = ''%'' @ q @ ''%''
      in like query (url r) \<or> like query (host r) \<or> like query (path r))"

text \<open>\<^verbatim>\<open>(content_type LIKE ? OR ... OR content_type LIKE ?)\<close>, one parameter \<^verbatim>\<open>%ct%\<close> for each entry.\<close>

definition content_type_condition :: "string list \<Rightarrow> request_row \<Rightarrow> bool" where
  "content_type_condition cts r =
     list_ex (\<lambda>pat. like pat (content_type r)) (map (\<lambda>ct. ''%'' @ ct @ ''%'') cts)"

text \<open>
  The conditions that \<^verbatim>\<open>getRequests\<close> appends to \<^verbatim>\<open>WHERE 1=1\<close>, in the order of the
  source. Each \<^verbatim>\<open>if\<close> of the source is one line: a string is truthy when it is not
  empty, a list is used when its length is positive, \<^verbatim>\<open>IN\<close> is membership under the
  default (exact) comparison.
\<close>

definition where_conditions :: "filter_options option \<Rightarrow> (request_row \<Rightarrow> bool) list" where
  "where_conditions filter_opt =
     (case filter_opt of
        None \<Rightarrow> []
      | Some f \<Rightarrow>
          (case searchQuery f of
             None \<Rightarrow> []
           | Some q \<Rightarrow> if q \<noteq> [] then [search_condition q] else []) @
          (case methods f of
             None \<Rightarrow> []
           | Some ms \<Rightarrow> if length ms > 0 then [\<lambda>r. method_col r \<in> set ms] else []) @
          (case statusCodes f of
             None \<Rightarrow> []
           | Some cs \<Rightarrow> if length cs > 0 then [\<lambda>r. status r \<in> set cs] else []) @
          (case hosts f of
             None \<Rightarrow> []
           | Some hs \<Rightarrow> if length hs > 0 then [\<lambda>r. host r \<in> set hs] else []) @
          (case contentTypes f of
             None \<Rightarrow> []
           | Some cts \<Rightarrow> if length cts > 0 then [content_type_condition cts] else []) @
          (case dateRange f of
             None \<Rightarrow> []
           | Some (range_start, range_end) \<Rightarrow>
               [\<lambda>r. timestamp r \<ge> range_start \<and> timestamp r \<le> range_end]))"

text \<open>The appended conditions are joined by \<^verbatim>\<open>AND\<close>.\<close>

definition select_where :: "(request_row \<Rightarrow> bool) list \<Rightarrow> request_row list \<Rightarrow> request_row list" where
  "select_where conds rows = filter (\<lambda>r. list_all (\<lambda>c. c r) conds) rows"

text \<open>
  \<^verbatim>\<open>ORDER BY timestamp DESC\<close>. The statement names no second key, so SQL leaves the
  order of rows with equal timestamps to the engine, which may order them differently
  from one statement to the next. That choice is the argument \<open>tie\<close>: rows with equal
  timestamps come in ascending order of \<open>tie\<close>.
\<close>

definition order_by_timestamp_desc ::
  "(request_row \<Rightarrow> int) \<Rightarrow> request_row list \<Rightarrow> request_row list" where
  "order_by_timestamp_desc tie rows = sort_key (\<lambda>r. - timestamp r) (sort_key tie rows)"

text \<open>
  \<^verbatim>\<open>LIMIT ?\<close> and \<^verbatim>\<open>OFFSET ?\<close> in SQLite: a negative limit is no limit, a negative
  offset is no offset.
\<close>

definition sql_limit :: "int \<Rightarrow> 'a list \<Rightarrow> 'a list" where
  "sql_limit l xs = (if l < 0 then xs else take (nat l) xs)"

definition sql_offset :: "int \<Rightarrow> 'a list \<Rightarrow> 'a list" where
  "sql_offset k xs = (if k < 0 then xs else drop (nat k) xs)"

text \<open>
  The pagination block: \<^verbatim>\<open>if (filter?.limit) { ... LIMIT ?; if (filter.offset) { ... OFFSET ? } }\<close>.
  A number is truthy when it is not 0.
\<close>

definition pagination :: "filter_options option \<Rightarrow> 'a list \<Rightarrow> 'a list" where
  "pagination filter_opt xs =
     (case filter_opt of
        None \<Rightarrow> xs
      | Some f \<Rightarrow>
          (case limit f of
             None \<Rightarrow> xs
           | Some l \<Rightarrow>
               if l = 0 then xs
               else (case offset f of
                       None \<Rightarrow> sql_limit l xs
                     | Some k \<Rightarrow> if k = 0 then sql_limit l xs else sql_limit l (sql_offset k xs))))"

text \<open>
  \<^verbatim>\<open>mapRowToRequest\<close> copies the columns one by one and parses the two header texts,
  so a returned request is the row as it is modelled here. The first argument is the
  engine's order among equal timestamps, as above.
\<close>

definition getRequests ::
  "(request_row \<Rightarrow> int) \<Rightarrow> filter_options option \<Rightarrow> traffic_storage
     \<Rightarrow> storage_error + request_row list" where
  "getRequests tie filter_opt s =
     (case db s of
        None \<Rightarrow> Inl Database_not_initialized
      | Some rows \<Rightarrow>
          Inr (pagination filter_opt
                 (order_by_timestamp_desc tie (select_where (where_conditions filter_opt) rows))))"

text \<open>\<^verbatim>\<open>SELECT COUNT(*)\<close> with the one condition \<^verbatim>\<open>getRequestCount\<close> appends.\<close>

definition getRequestCount :: "filter_options option \<Rightarrow> traffic_storage \<Rightarrow> storage_error + int" where
  "getRequestCount filter_opt s =
     (case db s of
        None \<Rightarrow> Inl Database_not_initialized
      | Some rows \<Rightarrow>
          (let conds = (case filter_opt of
                          None \<Rightarrow> []
                        | Some f \<Rightarrow>
                            (case searchQuery f of
                               None \<Rightarrow> []
                             | Some q \<Rightarrow> if q \<noteq> [] then [search_condition q] else []))
           in Inr (int (length (select_where conds rows)))))"

subsection \<open>The filter as the specification words it\<close>

text \<open>
  Case-insensitive substring search: \<open>ci_substring q s\<close> holds when some stretch of \<open>s\<close>
  equals \<open>q\<close> up to the case of ASCII letters.
\<close>

fun ci_prefix :: "string \<Rightarrow> string \<Rightarrow> bool" where
  "ci_prefix [] s = True"
| "ci_prefix (q # qs) [] = False"
| "ci_prefix (q # qs) (c # t) = (ascii_lower q = ascii_lower c \<and> ci_prefix qs t)"

fun ci_substring :: "string \<Rightarrow> string \<Rightarrow> bool" where
  "ci_substring q [] = ci_prefix q []"
| "ci_substring q (c # t) = (ci_prefix q (c # t) \<or> ci_substring q t)"

definition text_matches :: "string \<Rightarrow> request_row \<Rightarrow> bool" where
  "text_matches q r = (ci_substring q (url r) \<or> ci_substring q (host r) \<or> ci_substring q (path r))"

text \<open>
  All predicates of a filter at once: free text, methods, status codes, hosts,
  content-type substrings and the inclusive time range. A predicate that is absent or
  empty restricts nothing.
\<close>

definition satisfies_all_predicates :: "filter_options \<Rightarrow> request_row \<Rightarrow> bool" where
  "satisfies_all_predicates f r =
     ((case searchQuery f of None \<Rightarrow> True | Some q \<Rightarrow> text_matches q r) \<and>
      (case methods f of None \<Rightarrow> True | Some ms \<Rightarrow> ms = [] \<or> method_col r \<in> set ms) \<and>
      (case statusCodes f of None \<Rightarrow> True | Some cs \<Rightarrow> cs = [] \<or> status r \<in> set cs) \<and>
      (case hosts f of None \<Rightarrow> True | Some hs \<Rightarrow> hs = [] \<or> host r \<in> set hs) \<and>
      (case contentTypes f of
         None \<Rightarrow> True
       | Some cts \<Rightarrow> cts = [] \<or> list_ex (\<lambda>ct. ci_substring ct (content_type r)) cts) \<and>
      (case dateRange f of
         None \<Rightarrow> True
       | Some (range_start, range_end) \<Rightarrow> range_start \<le> timestamp r \<and> timestamp r \<le> range_end))"

text \<open>Texts in which neither of the two pattern characters of \<^verbatim>\<open>LIKE\<close> occurs.\<close>

definition wildcard_free :: "string \<Rightarrow> bool" where
  "wildcard_free q = (CHR ''%'' \<notin> set q \<and> CHR ''_'' \<notin> set q)"

definition wildcard_free_filter :: "filter_options \<Rightarrow> bool" where
  "wildcard_free_filter f =
     ((case searchQuery f of None \<Rightarrow> True | Some q \<Rightarrow> wildcard_free q) \<and>
      (case contentTypes f of None \<Rightarrow> True | Some cts \<Rightarrow> list_all wildcard_free cts))"

text \<open>
  The status-code buckets of the specification's filter, each with the inclusive range it
  stands for.
\<close>

datatype status_bucket = Bucket_2xx | Bucket_3xx | Bucket_4xx | Bucket_5xx

fun bucket_range :: "status_bucket \<Rightarrow> int \<times> int" where
  "bucket_range Bucket_2xx = (200, 299)"
| "bucket_range Bucket_3xx = (300, 399)"
| "bucket_range Bucket_4xx = (400, 499)"
| "bucket_range Bucket_5xx = (500, 599)"

definition in_bucket :: "status_bucket \<Rightarrow> int \<Rightarrow> bool" where
  "in_bucket b st = (fst (bucket_range b) \<le> st \<and> st \<le> snd (bucket_range b))"

subsection \<open>Example rows\<close>

text \<open>
  Rows used to run the operations on concrete tables: a completed exchange stamped two
  hours before the instant \<open>10000000\<close>, an exchange stamped thirty minutes before it
  whose response has not arrived, so that its response columns still hold the defaults
  of the table (status 0, content type empty), and a later exchange answered with 204.
  \<open>empty_filter\<close> is the filter object \<^verbatim>\<open>{}\<close>.
\<close>

definition completed_row :: request_row where
  "completed_row =
     \<lparr>id_col = 1, timestamp = 2800000, method_col = ''GET'', url = ''http://example.test/'',
      host = ''example.test'', path = ''/'', status = 200, request_headers = [],
      request_body = None, response_headers = [], response_body = Some ''hello'',
      content_type = ''text/plain'', duration = 12, size_col = 5\<rparr>"

definition pending_row :: request_row where
  "pending_row =
     \<lparr>id_col = 2, timestamp = 8200000, method_col = ''POST'', url = ''http://Api.test/Login_v2'',
      host = ''Api.test'', path = ''/Login_v2'', status = 0, request_headers = [],
      request_body = Some ''x=1'', response_headers = [], response_body = None,
      content_type = [], duration = 0, size_col = 0\<rparr>"

definition not_found_data :: response_data where
  "not_found_data =
     \<lparr>rd_status = 404, rd_responseHeaders = [], rd_responseBody = None,
      rd_contentType = ''text/html'', rd_duration = 40, rd_size = 0\<rparr>"

definition no_content_row :: request_row where
  "no_content_row =
     \<lparr>id_col = 3, timestamp = 9000000, method_col = ''GET'', url = ''https://example.test/x?y=1'',
      host = ''example.test'', path = ''/x?y=1'', status = 204, request_headers = [],
      request_body = None, response_headers = [], response_body = None,
      content_type = ''application/json; charset=utf-8'', duration = 7, size_col = 0\<rparr>"

definition empty_filter :: filter_options where
  "empty_filter =
     \<lparr>searchQuery = None, methods = None, statusCodes = None, hosts = None,
      contentTypes = None, dateRange = None, limit = None, offset = None\<rparr>"

section \<open>The certificate manager (electron/main/services/CertificateManager.ts)\<close>

subsection \<open>Keys, dates and certificates\<close>

text \<open>
  The cryptography is node-forge's and is kept abstract. An RSA key is its modulus
  length in bits together with the key material the generator produced, a number that
  tells keys apart. A signature records the signing key and the digest. Texts are
  strings of 8-bit characters.
\<close>

datatype private_key = PrivateKey nat nat

datatype public_key = PublicKey nat nat

datatype message_digest = Sha1 | Sha256 | Sha384 | Sha512

text \<open>
  A JavaScript \<^verbatim>\<open>Date\<close>, as the fields of local time that \<^verbatim>\<open>getFullYear\<close>,
  \<^verbatim>\<open>getMonth\<close> (0 to 11), \<^verbatim>\<open>getDate\<close> (1 to 31) and the time-of-day getters return.
\<close>

record js_date =
  fullYear :: int
  month :: int
  date :: int
  d_hours :: int
  d_minutes :: int
  d_seconds :: int
  d_milliseconds :: int

definition is_leap_year :: "int \<Rightarrow> bool" where
  "is_leap_year y = (y mod 4 = 0 \<and> (y mod 100 \<noteq> 0 \<or> y mod 400 = 0))"

definition days_in_month :: "int \<Rightarrow> int \<Rightarrow> int" where
  "days_in_month y m =
     (if m = 1 then (if is_leap_year y then 29 else 28)
      else if m = 3 \<or> m = 5 \<or> m = 8 \<or> m = 10 then 30
      else 31)"

text \<open>
  \<^verbatim>\<open>new Date(year, month, day)\<close> is the start of that day in local time. Of the local
  time zone the code meets only this: a day begins at midnight unless a change of the
  clocks skips that midnight, and then it begins as many minutes later as are skipped.
  \<open>gap y m d\<close> is that number of minutes for the day \<open>d\<close> of month \<open>m\<close> of year \<open>y\<close>,
  0 for a day that begins at midnight.
\<close>

definition start_of_day :: "(int \<Rightarrow> int \<Rightarrow> int \<Rightarrow> nat) \<Rightarrow> int \<Rightarrow> int \<Rightarrow> int \<Rightarrow> js_date" where
  "start_of_day gap y m d =
     \<lparr>fullYear = y, month = m, date = d,
      d_hours = int (gap y m d div 60), d_minutes = int (gap y m d mod 60),
      d_seconds = 0, d_milliseconds = 0\<rparr>"

text \<open>
  A day beyond the end of the month rolls over into the next month; for a month in 0 to
  11 and a day in 1 to 31, the arguments the source passes, one step of rolling over is
  enough.
\<close>

definition new_Date :: "(int \<Rightarrow> int \<Rightarrow> int \<Rightarrow> nat) \<Rightarrow> int \<Rightarrow> int \<Rightarrow> int \<Rightarrow> js_date" where
  "new_Date gap y m d =
     (let (y', m', d') =
            (if d \<le> days_in_month y m then (y, m, d)
             else if m = 11 then (y + 1, 0, d - days_in_month y m)
             else (y, m + 1, d - days_in_month y m))
      in start_of_day gap y' m' d')"

type_synonym attribute = "string \<times> string"

text \<open>
  An entry of the subject alternative names: \<^verbatim>\<open>{type: 2, value: v}\<close> is a DNS name,
  \<^verbatim>\<open>{type: 7, ip: v}\<close> an IP address.
\<close>

datatype alt_name = DNS string | IP string

datatype key_usage_flag = keyCertSign | digitalSignature | cRLSign | keyEncipherment

datatype ext_key_usage_flag = serverAuth | clientAuth

text \<open>
  The extensions the source sets. \<open>BasicConstraints cA critical\<close> and
  \<open>KeyUsage flags critical\<close> carry the \<^verbatim>\<open>critical\<close> mark, false when the source
  leaves it out.
\<close>

datatype extension =
    BasicConstraints bool bool
  | KeyUsage "key_usage_flag list" bool
  | ExtKeyUsage "ext_key_usage_flag list"
  | SubjectAltName "alt_name list"
  | SubjectKeyIdentifier

text \<open>
  The serial number is the text \<^verbatim>\<open>Date.now().toString(16) + Math.random().toString(16).substring(2)\<close>;
  it is kept as the pair of the clock reading and the random number it is printed from.
\<close>

type_synonym serial_number = "int \<times> nat"

record certificate =
  publicKey :: "public_key option"
  serialNumber :: serial_number
  notBefore :: "js_date option"
  notAfter :: "js_date option"
  subject :: "attribute list"
  issuer :: "attribute list"
  extensions :: "extension list"
  signature :: "(private_key \<times> message_digest) option"

subsection \<open>Texts of digits and dots\<close>

text \<open>
  The test \<^verbatim>\<open>/^(?:[0-9]{1,3}\.){3}[0-9]{1,3}$/\<close> of \<^verbatim>\<open>generateServerCert\<close>: the whole
  text is four groups of one to three decimal digits with a dot between them. As a digit
  is never a dot, these are the texts that the dots cut into exactly four pieces, each of
  one to three digits.
\<close>

fun split_on :: "char \<Rightarrow> string \<Rightarrow> string list" where
  "split_on sep [] = [[]]"
| "split_on sep (c # cs) =
     (if c = sep then [] # split_on sep cs
      else (case split_on sep cs of [] \<Rightarrow> [[c]] | p # ps \<Rightarrow> (c # p) # ps))"

definition is_digit :: "char \<Rightarrow> bool" where
  "is_digit c = (c \<in> set ''0123456789'')"

definition digits_1_3 :: "string \<Rightarrow> bool" where
  "digits_1_3 p = (1 \<le> length p \<and> length p \<le> 3 \<and> list_all is_digit p)"

definition isIp :: "string \<Rightarrow> bool" where
  "isIp domain =
     (let groups = split_on CHR ''.'' domain
      in length groups = 4 \<and> list_all digits_1_3 groups)"

text \<open>
  \<^verbatim>\<open>parseInt(g, 10)\<close> of a group of digits, and the decimal text of a number below
  1000, which has no leading zero.
\<close>

definition digit_value :: "char \<Rightarrow> nat" where
  "digit_value c =
     (case map_of (zip ''0123456789'' [0, 1, 2, 3, 4, 5, 6, 7, 8, 9]) c of
        None \<Rightarrow> 0
      | Some v \<Rightarrow> v)"

definition decimal_value :: "string \<Rightarrow> nat" where
  "decimal_value p = foldl (\<lambda>n c. 10 * n + digit_value c) 0 p"

definition digit_char :: "nat \<Rightarrow> char" where
  "digit_char n = ''0123456789'' ! n"

definition decimal_text :: "nat \<Rightarrow> string" where
  "decimal_text n =
     (if n < 10 then [digit_char n]
      else if n < 100 then [digit_char (n div 10), digit_char (n mod 10)]
      else [digit_char (n div 100), digit_char (n div 10 mod 10), digit_char (n mod 10)])"

fun join_dots :: "string list \<Rightarrow> string" where
  "join_dots [] = []"
| "join_dots [g] = g"
| "join_dots (g # h # gs) = g @ ''.'' @ join_dots (h # gs)"

subsection \<open>Encoding and decoding\<close>

text \<open>
  What node-forge encodes of an IP entry is not its text but the bytes
  \<^verbatim>\<open>bytesFromIP\<close> makes of it: for a text that passes the test above, the values of
  its four groups. A value above 255 is no byte, and the encoding that results cannot be
  decoded. Decoding gives an IP entry the text \<^verbatim>\<open>bytesToIP\<close> makes of the bytes: the
  four numbers in decimal with dots between them. The source gives an IP entry to no
  text that fails the test; for such an entry no encoding is modelled.
\<close>

definition bytesFromIP :: "string \<Rightarrow> nat list" where
  "bytesFromIP ip = map decimal_value (split_on CHR ''.'' ip)"

definition bytesToIP :: "nat list \<Rightarrow> string" where
  "bytesToIP bs = join_dots (map decimal_text bs)"

fun alt_name_encodable :: "alt_name \<Rightarrow> bool" where
  "alt_name_encodable (DNS v) = True"
| "alt_name_encodable (IP t) = (isIp t \<and> list_all (\<lambda>b. b \<le> 255) (bytesFromIP t))"

fun extension_encodable :: "extension \<Rightarrow> bool" where
  "extension_encodable (SubjectAltName names) = list_all alt_name_encodable names"
| "extension_encodable e = True"

definition encodable :: "certificate \<Rightarrow> bool" where
  "encodable c = list_all extension_encodable (extensions c)"

fun encoded_alt_name :: "alt_name \<Rightarrow> alt_name" where
  "encoded_alt_name (DNS v) = DNS v"
| "encoded_alt_name (IP t) = IP (bytesToIP (bytesFromIP t))"

fun encoded_extension :: "extension \<Rightarrow> extension" where
  "encoded_extension (SubjectAltName names) = SubjectAltName (map encoded_alt_name names)"
| "encoded_extension e = e"

text \<open>The times of a certificate are encoded to the second: the milliseconds are dropped.\<close>

definition utc_time :: "js_date \<Rightarrow> js_date" where
  "utc_time d = d\<lparr>d_milliseconds := 0\<rparr>"

text \<open>
  \<open>encoded c\<close> is what is left of a certificate once encoded: the certificate that
  decoding the encoding gives back.
\<close>

definition encoded :: "certificate \<Rightarrow> certificate" where
  "encoded c =
     c\<lparr>notBefore := map_option utc_time (notBefore c),
       notAfter := map_option utc_time (notAfter c),
       extensions := map encoded_extension (extensions c)\<rparr>"

text \<open>
  A PEM text is kept as what it decodes to. \<open>CertificatePem c\<close> is the PEM text of an
  encoding that decodes to \<open>c\<close>; it is a PEM text only for a \<open>c\<close> that some encoding
  gives back, that is, one that encoding leaves as it is. \<open>OtherText\<close> is any text
  that decodes to nothing; such is the text that \<^verbatim>\<open>certificateToPem\<close> returns for a
  certificate with an IP entry that has a group above 255.
\<close>

datatype pem = PrivateKeyPem private_key | CertificatePem certificate | OtherText string

datatype der = CertificateDer certificate

datatype cert_error = CA_not_initialized | Invalid_PEM | Read_failed

definition createCertificate :: certificate where
  "createCertificate =
     \<lparr>publicKey = None, serialNumber = (0, 0), notBefore = None, notAfter = None,
      subject = [], issuer = [], extensions = [], signature = None\<rparr>"

definition sign :: "private_key \<Rightarrow> message_digest \<Rightarrow> certificate \<Rightarrow> certificate" where
  "sign k md c = c\<lparr>signature := Some (k, md)\<rparr>"

definition privateKeyToPem :: "private_key \<Rightarrow> pem" where
  "privateKeyToPem k = PrivateKeyPem k"

definition certificateToPem :: "certificate \<Rightarrow> pem" where
  "certificateToPem c = (if encodable c then CertificatePem (encoded c) else OtherText [])"

definition privateKeyFromPem :: "pem \<Rightarrow> cert_error + private_key" where
  "privateKeyFromPem p = (case p of PrivateKeyPem k \<Rightarrow> Inr k | _ \<Rightarrow> Inl Invalid_PEM)"

definition certificateFromPem :: "pem \<Rightarrow> cert_error + certificate" where
  "certificateFromPem p =
     (case p of
        CertificatePem c \<Rightarrow> if encodable c \<and> encoded c = c then Inr c else Inl Invalid_PEM
      | _ \<Rightarrow> Inl Invalid_PEM)"

subsection \<open>The world outside: randomness, clock, files\<close>

text \<open>
  What the code reads from outside. \<open>rsa_stream\<close> gives the key material of the
  first, second, ... call of \<^verbatim>\<open>generateKeyPair\<close> and \<open>rsa_calls\<close> counts the calls made
  so far; likewise \<open>random_stream\<close> and \<open>random_calls\<close> for \<^verbatim>\<open>Math.random\<close>. \<open>clock\<close> is
  what \<^verbatim>\<open>new Date()\<close> returns and \<open>clock_ms\<close> what \<^verbatim>\<open>Date.now()\<close> returns.
  \<open>midnight_gap\<close> is the local time zone, as \<^verbatim>\<open>new Date(year, month, day)\<close> meets it.
\<close>

record world =
  rsa_stream :: "nat \<Rightarrow> nat"
  rsa_calls :: nat
  random_stream :: "nat \<Rightarrow> nat"
  random_calls :: nat
  clock :: js_date
  clock_ms :: int
  midnight_gap :: "int \<Rightarrow> int \<Rightarrow> int \<Rightarrow> nat"

definition generateKeyPair :: "nat \<Rightarrow> world \<Rightarrow> (private_key \<times> public_key) \<times> world" where
  "generateKeyPair bits w =
     (let material = rsa_stream w (rsa_calls w)
      in ((PrivateKey bits material, PublicKey bits material), w\<lparr>rsa_calls := Suc (rsa_calls w)\<rparr>))"

definition generateSerialNumber :: "world \<Rightarrow> serial_number \<times> world" where
  "generateSerialNumber w =
     ((clock_ms w, random_stream w (random_calls w)), w\<lparr>random_calls := Suc (random_calls w)\<rparr>)"

text \<open>
  The file system: the directories that exist and the contents of the files that exist.
  \<^verbatim>\<open>existsSync\<close> is true of both. Reading a path that holds no file fails. Creating a
  directory and writing a file always succeed here: permissions are left out.
\<close>

record file_system =
  dirs :: "string set"
  files :: "string \<rightharpoonup> pem"

definition existsSync :: "file_system \<Rightarrow> string \<Rightarrow> bool" where
  "existsSync fs p = (p \<in> dirs fs \<or> files fs p \<noteq> None)"

definition mkdirSync :: "string \<Rightarrow> file_system \<Rightarrow> file_system" where
  "mkdirSync p fs = fs\<lparr>dirs := insert p (dirs fs)\<rparr>"

definition readFileSync :: "file_system \<Rightarrow> string \<Rightarrow> cert_error + pem" where
  "readFileSync fs p = (case files fs p of None \<Rightarrow> Inl Read_failed | Some c \<Rightarrow> Inr c)"

definition writeFileSync :: "string \<Rightarrow> pem \<Rightarrow> file_system \<Rightarrow> file_system" where
  "writeFileSync p c fs = fs\<lparr>files := (files fs)(p \<mapsto> c)\<rparr>"

subsection \<open>The manager\<close>

record certificate_manager =
  certsDir :: string
  caKeyPath :: string
  caCertPath :: string
  caKey :: "private_key option"
  caCert :: "certificate option"

text \<open>\<^verbatim>\<open>path.join\<close> of two segments that need no normalising.\<close>

definition path_join :: "string \<Rightarrow> string \<Rightarrow> string" where
  "path_join a b = a @ ''/'' @ b"

definition new_CertificateManager :: "string \<Rightarrow> certificate_manager" where
  "new_CertificateManager userDataPath =
     (let d = path_join userDataPath ''certificates''
      in \<lparr>certsDir = d,
          caKeyPath = path_join d ''rootCA.key'',
          caCertPath = path_join d ''rootCA.crt'',
          caKey = None,
          caCert = None\<rparr>)"

definition caExists :: "certificate_manager \<Rightarrow> file_system \<Rightarrow> bool" where
  "caExists m fs = (existsSync fs (caKeyPath m) \<and> existsSync fs (caCertPath m))"

text \<open>
  \<^verbatim>\<open>loadCA\<close> reads both files, then decodes and stores the key, then decodes and stores
  the certificate; a failure leaves the fields assigned so far.
\<close>

definition loadCA ::
  "certificate_manager \<Rightarrow> file_system \<Rightarrow> (cert_error + unit) \<times> certificate_manager" where
  "loadCA m fs =
     (case readFileSync fs (caKeyPath m) of
        Inl e \<Rightarrow> (Inl e, m)
      | Inr keyPem \<Rightarrow>
     (case readFileSync fs (caCertPath m) of
        Inl e \<Rightarrow> (Inl e, m)
      | Inr certPem \<Rightarrow>
     (case privateKeyFromPem keyPem of
        Inl e \<Rightarrow> (Inl e, m)
      | Inr k \<Rightarrow>
     (case certificateFromPem certPem of
        Inl e \<Rightarrow> (Inl e, m\<lparr>caKey := Some k\<rparr>)
      | Inr c \<Rightarrow> (Inr (), m\<lparr>caKey := Some k, caCert := Some c\<rparr>)))))"

definition ca_attrs :: "attribute list" where
  "ca_attrs =
     [(''commonName'', ''Trafexia Root CA''),
      (''countryName'', ''VN''),
      (''organizationName'', ''Trafexia''),
      (''organizationalUnitName'', ''Development'')]"

text \<open>
  \<^verbatim>\<open>generateCA\<close>. Its third result lists the states of the file system after each of
  its two writes, in order: first \<^verbatim>\<open>writeFileSync(caKeyPath, keyPem)\<close>, then
  \<^verbatim>\<open>writeFileSync(caCertPath, certPem)\<close>.
\<close>

definition generateCA ::
  "certificate_manager \<Rightarrow> file_system \<Rightarrow> world
     \<Rightarrow> certificate_manager \<times> file_system list \<times> world" where
  "generateCA m fs w =
     (let ((privateKey, pubKey), w1) = generateKeyPair 2048 w;
          m1 = m\<lparr>caKey := Some privateKey\<rparr>;
          (serial, w2) = generateSerialNumber w1;
          now = clock w2;
          cert = createCertificate
                   \<lparr>publicKey := Some pubKey,
                    serialNumber := serial,
                    notBefore := Some now,
                    notAfter :=
                      Some (new_Date (midnight_gap w2) (fullYear now + 10) (month now) (date now)),
                    subject := ca_attrs,
                    issuer := ca_attrs,
                    extensions :=
                      [BasicConstraints True True,
                       KeyUsage [keyCertSign, digitalSignature, cRLSign] True,
                       SubjectKeyIdentifier]\<rparr>;
          cert = sign privateKey Sha256 cert;
          m2 = m1\<lparr>caCert := Some cert\<rparr>;
          keyPem = privateKeyToPem privateKey;
          certPem = certificateToPem cert;
          fs1 = writeFileSync (caKeyPath m) keyPem fs;
          fs2 = writeFileSync (caCertPath m) certPem fs1
      in (m2, [fs1, fs2], w2))"

text \<open>
  \<^verbatim>\<open>initialize\<close>. The list in its result holds the states the file system passes
  through, the state it started in first and the state it is left in last.
\<close>

definition initialize ::
  "certificate_manager \<Rightarrow> file_system \<Rightarrow> world
     \<Rightarrow> (cert_error + unit) \<times> certificate_manager \<times> file_system list \<times> world" where
  "initialize m fs w =
     (let made = (if \<not> existsSync fs (certsDir m) then [mkdirSync (certsDir m) fs] else []);
          fs0 = last (fs # made)
      in if caExists m fs0
         then (let (res, m') = loadCA m fs0 in (res, m', fs # made, w))
         else (let (m', written, w') = generateCA m fs0 w
               in (Inr (), m', fs # made @ written, w')))"

subsection \<open>Leaf certificates\<close>

record server_cert =
  key :: pem
  cert :: pem

definition generateServerCert ::
  "certificate_manager \<Rightarrow> world \<Rightarrow> string \<Rightarrow> (cert_error + server_cert) \<times> world" where
  "generateServerCert m w domain =
     (case (caKey m, caCert m) of
        (Some ca_key, Some ca_cert) \<Rightarrow>
          (let ((privateKey, pubKey), w1) = generateKeyPair 2048 w;
               (serial, w2) = generateSerialNumber w1;
               now = clock w2;
               altNames = [DNS domain, DNS (''*.'' @ domain)];
               altNames = (if isIp domain then altNames @ [IP domain] else altNames);
               c = createCertificate
                     \<lparr>publicKey := Some pubKey,
                      serialNumber := serial,
                      notBefore := Some now,
                      notAfter :=
                        Some (new_Date (midnight_gap w2) (fullYear now + 1) (month now) (date now)),
                      subject := [(''commonName'', domain), (''organizationName'', ''Trafexia'')],
                      issuer := subject ca_cert,
                      extensions :=
                        [BasicConstraints False False,
                         KeyUsage [digitalSignature, keyEncipherment] False,
                         ExtKeyUsage [serverAuth],
                         SubjectAltName altNames]\<rparr>;
               c = sign ca_key Sha256 c
           in (Inr \<lparr>key = privateKeyToPem privateKey, cert = certificateToPem c\<rparr>, w2))
      | _ \<Rightarrow> (Inl CA_not_initialized, w))"

subsection \<open>The accessors of the CA material\<close>

definition getCertPem :: "certificate_manager \<Rightarrow> cert_error + pem" where
  "getCertPem m =
     (case caCert m of None \<Rightarrow> Inl CA_not_initialized | Some c \<Rightarrow> Inr (certificateToPem c))"

definition getCertDer :: "certificate_manager \<Rightarrow> cert_error + der" where
  "getCertDer m =
     (case caCert m of None \<Rightarrow> Inl CA_not_initialized | Some c \<Rightarrow> Inr (CertificateDer c))"

subsection \<open>Predicates on managers\<close>

text \<open>
  The CA is loaded when both the key and the certificate are held. The fields are
  assigned key first, so a manager never holds a certificate without a key.
\<close>

definition ca_loaded :: "certificate_manager \<Rightarrow> bool" where
  "ca_loaded m = (caKey m \<noteq> None \<and> caCert m \<noteq> None)"

definition key_before_cert :: "certificate_manager \<Rightarrow> bool" where
  "key_before_cert m = (caCert m \<noteq> None \<longrightarrow> caKey m \<noteq> None)"

text \<open>The two files and the directory have three different paths.\<close>

definition paths_distinct :: "certificate_manager \<Rightarrow> bool" where
  "paths_distinct m =
     (caKeyPath m \<noteq> caCertPath m \<and> certsDir m \<noteq> caKeyPath m \<and> certsDir m \<noteq> caCertPath m)"

subsection \<open>Leaf certificates as the specification words them\<close>

text \<open>
  A dotted-quad IPv4 literal: four decimal numbers from 0 to 255, each written in one to
  three digits without a leading zero, with a dot between them.
\<close>

definition ipv4_literal :: "string \<Rightarrow> bool" where
  "ipv4_literal hostname =
     (let groups = split_on CHR ''.'' hostname
      in length groups = 4 \<and>
         list_all (\<lambda>g. digits_1_3 g \<and> decimal_value g \<le> 255 \<and>
                        (length g \<le> 1 \<or> take 1 g \<noteq> ''0'')) groups)"

text \<open>One year from an instant: the same day and time of day in the following year.\<close>

definition one_year_after :: "js_date \<Rightarrow> js_date" where
  "one_year_after d = d\<lparr>fullYear := fullYear d + 1\<rparr>"

text \<open>A date whose month and day are ones a clock can show.\<close>

definition calendar_date :: "js_date \<Rightarrow> bool" where
  "calendar_date d =
     (0 \<le> month d \<and> month d \<le> 11 \<and> 1 \<le> date d \<and> date d \<le> days_in_month (fullYear d) (month d))"

subsection \<open>An example installation\<close>

text \<open>
  A world whose key generator never repeats itself, read on 5 March 2024 at 15:30 local
  time; a data directory without certificates; and the manager that the first
  \<^verbatim>\<open>initialize\<close> leaves behind there.
\<close>

definition example_world :: world where
  "example_world =
     \<lparr>rsa_stream = (\<lambda>n. 1000 + n), rsa_calls = 0,
      random_stream = (\<lambda>n. 7 * n + 3), random_calls = 0,
      clock = \<lparr>fullYear = 2024, month = 2, date = 5,
               d_hours = 15, d_minutes = 30, d_seconds = 0, d_milliseconds = 0\<rparr>,
      clock_ms = 1709652600000,
      midnight_gap = (\<lambda>y m d. 0)\<rparr>"

definition empty_install :: file_system where
  "empty_install = \<lparr>dirs = {''/data''}, files = Map.empty\<rparr>"

definition first_run ::
  "(cert_error + unit) \<times> certificate_manager \<times> file_system list \<times> world" where
  "first_run = initialize (new_CertificateManager ''/data'') empty_install example_world"

definition loaded_manager :: certificate_manager where
  "loaded_manager = fst (snd first_run)"

definition first_run_trace :: "file_system list" where
  "first_run_trace = fst (snd (snd first_run))"

definition world_after_first_run :: world where
  "world_after_first_run = snd (snd (snd first_run))"

definition second_run ::
  "(cert_error + unit) \<times> certificate_manager \<times> file_system list \<times> world" where
  "second_run =
     initialize (new_CertificateManager ''/data'') (last first_run_trace) world_after_first_run"

text \<open>The certificate inside a minted pair.\<close>

definition minted_certificate :: "(cert_error + server_cert) \<times> world \<Rightarrow> certificate" where
  "minted_certificate res = projr (certificateFromPem (cert (projr (fst res))))"

section \<open>Properties of the traffic store\<close>

subsection \<open>Completing an exchange\<close>

lemma set_response_twice: "set_response d' (set_response d r) = set_response d' r"
  by (simp add: set_response_def)

lemma id_col_set_response: "id_col (set_response d r) = id_col r"
  by (simp add: set_response_def)

text \<open>
  C2, as stated, fails: \<^verbatim>\<open>updateResponse\<close> has no test of the row's status, so a second
  call on a completed exchange (status 200) with other response fields rewrites the row.
\<close>

theorem complete_twice_counterexample:
  "status completed_row \<noteq> 0 \<and>
   updateResponse 1 not_found_data \<lparr>db = Some [completed_row]\<rparr> \<noteq> Inr \<lparr>db = Some [completed_row]\<rparr>"
  by (simp add: updateResponse_def set_response_def completed_row_def not_found_data_def)

text \<open>
  C2, amended: on an open database \<^verbatim>\<open>updateResponse\<close> succeeds and overwrites the six
  response columns (status, response headers, response body, content type, duration,
  size) of the row with the given id, whatever its status, and leaves its other columns
  alone. A second call therefore has the effect of that call alone (the last write
  wins): where a row with the id exists, the second call changes nothing if and only if
  it carries the same fields as the first. Rows with another id, the number of rows and
  their order are never changed, and without a row of that id nothing is changed at all.
\<close>

theorem updateResponse_overwrites:
  assumes "db s = Some rows"
  shows "\<exists>s1 s2 rows2.
           updateResponse i d s = Inr s1 \<and> updateResponse i d' s1 = Inr s2 \<and>
           updateResponse i d' s = Inr s2 \<and>
           db s2 = Some rows2 \<and> length rows2 = length rows \<and>
           (\<forall>k < length rows.
              rows2 ! k =
                (if id_col (rows ! k) = i
                 then (rows ! k)\<lparr>status := rd_status d',
                                 response_headers := rd_responseHeaders d',
                                 response_body := rd_responseBody d',
                                 content_type := rd_contentType d',
                                 duration := rd_duration d',
                                 size_col := rd_size d'\<rparr>
                 else rows ! k)) \<and>
           ((\<exists>r \<in> set rows. id_col r = i) \<longrightarrow> (s2 = s1 \<longleftrightarrow> d' = d)) \<and>
           ((\<forall>r \<in> set rows. id_col r \<noteq> i) \<longrightarrow> s1 = s \<and> s2 = s)"
proof -
  let ?u = "\<lambda>x r. if id_col r = i then set_response x r else r"
  let ?s1 = "s\<lparr>db := Some (map (?u d) rows)\<rparr>"
  let ?s2 = "s\<lparr>db := Some (map (?u d') rows)\<rparr>"
  have twice: "map (?u d') (map (?u d) rows) = map (?u d') rows"
    by (simp add: set_response_twice id_col_set_response)
  have r1: "updateResponse i d s = Inr ?s1"
    using assms by (simp add: updateResponse_def)
  have r2: "updateResponse i d' ?s1 = Inr ?s2"
    using twice by (simp add: updateResponse_def)
  have r3: "updateResponse i d' s = Inr ?s2"
    using assms by (simp add: updateResponse_def)
  have cols: "\<forall>k < length rows.
              map (?u d') rows ! k =
                (if id_col (rows ! k) = i
                 then (rows ! k)\<lparr>status := rd_status d',
                                 response_headers := rd_responseHeaders d',
                                 response_body := rd_responseBody d',
                                 content_type := rd_contentType d',
                                 duration := rd_duration d',
                                 size_col := rd_size d'\<rparr>
                 else rows ! k)"
    by (simp add: set_response_def)
  have same: "(\<exists>r \<in> set rows. id_col r = i) \<longrightarrow> (?s2 = ?s1 \<longleftrightarrow> d' = d)"
  proof
    assume "\<exists>r \<in> set rows. id_col r = i"
    then obtain r where r: "r \<in> set rows" "id_col r = i"
      by blast
    show "?s2 = ?s1 \<longleftrightarrow> d' = d"
    proof
      assume "?s2 = ?s1"
      then have "db ?s2 = db ?s1"
        by (rule arg_cong)
      then have "map (?u d') rows = map (?u d) rows"
        by simp
      with r(1) have "?u d' r = ?u d r"
        by (simp add: map_eq_conv)
      with r(2) have e: "set_response d' r = set_response d r"
        by simp
      have "status (set_response d' r) = status (set_response d r)"
        "response_headers (set_response d' r) = response_headers (set_response d r)"
        "response_body (set_response d' r) = response_body (set_response d r)"
        "content_type (set_response d' r) = content_type (set_response d r)"
        "duration (set_response d' r) = duration (set_response d r)"
        "size_col (set_response d' r) = size_col (set_response d r)"
        using e by simp_all
      then show "d' = d"
        by (simp add: set_response_def)
    next
      assume "d' = d"
      then show "?s2 = ?s1"
        by simp
    qed
  qed
  have none: "(\<forall>r \<in> set rows. id_col r \<noteq> i) \<longrightarrow> ?s1 = s \<and> ?s2 = s"
  proof
    assume n: "\<forall>r \<in> set rows. id_col r \<noteq> i"
    then have "map (?u d) rows = rows" "map (?u d') rows = rows"
      by (simp_all add: map_idI)
    with assms show "?s1 = s \<and> ?s2 = s"
      by simp
  qed
  show ?thesis
    apply (rule exI[of _ ?s1])
    apply (rule exI[of _ ?s2])
    apply (rule exI[of _ "map (?u d') rows"])
    using r1 r2 r3 cols same none apply simp
    done
qed

theorem updateResponse_overwrites_witness:
  "db \<lparr>db = Some [completed_row, pending_row]\<rparr> = Some [completed_row, pending_row] \<and>
   (\<exists>r \<in> set [completed_row, pending_row]. id_col r = 1) \<and>
   updateResponse 1 not_found_data \<lparr>db = Some [completed_row, pending_row]\<rparr>
     = Inr \<lparr>db = Some [completed_row\<lparr>status := 404, response_headers := [],
                                      response_body := None, content_type := ''text/html'',
                                      duration := 40, size_col := 0\<rparr>,
                       pending_row]\<rparr> \<and>
   updateResponse 1 not_found_data
       \<lparr>db = Some [completed_row\<lparr>status := 404, response_headers := [],
                                 response_body := None, content_type := ''text/html'',
                                 duration := 40, size_col := 0\<rparr>,
                  pending_row]\<rparr>
     = Inr \<lparr>db = Some [completed_row\<lparr>status := 404, response_headers := [],
                                      response_body := None, content_type := ''text/html'',
                                      duration := 40, size_col := 0\<rparr>,
                       pending_row]\<rparr>"
proof -
  have h: "db \<lparr>db = Some [completed_row, pending_row]\<rparr> = Some [completed_row, pending_row]"
    by simp
  have e: "\<exists>r \<in> set [completed_row, pending_row]. id_col r = 1"
    by (simp add: completed_row_def)
  show ?thesis
    using h e updateResponse_overwrites [OF h, of 1 not_found_data not_found_data]
    by (simp add: updateResponse_def set_response_def completed_row_def pending_row_def
                  not_found_data_def)
qed

subsection \<open>The retention sweep\<close>

lemma cutoff_eq: "now - hours * 60 * 60 * 1000 = now - hours * (3600000::int)"
  by simp

text \<open>
  C8, as stated, fails: the argument of \<^verbatim>\<open>deleteOlderThan\<close> is a number of hours, not
  an age in milliseconds. At the instant \<open>10000000\<close> a sweep with the argument \<open>3600000\<close>
  removes nothing and returns 0, although the first row is older than \<open>10000000 - 3600000\<close>.
\<close>

theorem sweep_age_counterexample:
  "deleteOlderThan 10000000 3600000 \<lparr>db = Some [completed_row, pending_row]\<rparr>
     = Inr (0, \<lparr>db = Some [completed_row, pending_row]\<rparr>) \<and>
   timestamp completed_row < 10000000 - 3600000"
  by (simp add: deleteOlderThan_def completed_row_def pending_row_def)

text \<open>
  C8, amended: with the age given in hours, \<^verbatim>\<open>deleteOlderThan\<close> on an open database
  keeps exactly the rows whose timestamp is not below \<open>now - hours * 3600000\<close>, changes
  nothing else, and returns the number of rows it removed.
\<close>

theorem deleteOlderThan_exact:
  assumes "db s = Some rows"
  shows "\<exists>n rows'.
           deleteOlderThan now hours s = Inr (n, s\<lparr>db := Some rows'\<rparr>) \<and>
           set rows' = {r \<in> set rows. \<not> timestamp r < now - hours * 3600000} \<and>
           n = int (length (filter (\<lambda>r. timestamp r < now - hours * 3600000) rows)) \<and>
           int (length rows') + n = int (length rows)"
proof -
  let ?old = "\<lambda>r. timestamp r < now - hours * 3600000"
  let ?kept = "filter (\<lambda>r. \<not> ?old r) rows"
  have run: "deleteOlderThan now hours s
               = Inr (int (length (filter ?old rows)), s\<lparr>db := Some ?kept\<rparr>)"
    using assms unfolding deleteOlderThan_def Let_def cutoff_eq by simp
  have len: "int (length ?kept) + int (length (filter ?old rows)) = int (length rows)"
    using sum_length_filter_compl[of ?old rows] by linarith
  have "set ?kept = {r \<in> set rows. \<not> ?old r}"
    by auto
  with run len show ?thesis
    by blast
qed

theorem deleteOlderThan_exact_witness:
  "db \<lparr>db = Some [completed_row, pending_row]\<rparr> = Some [completed_row, pending_row] \<and>
   deleteOlderThan 10000000 1 \<lparr>db = Some [completed_row, pending_row]\<rparr>
     = Inr (1, \<lparr>db = Some [pending_row]\<rparr>)"
proof -
  have h: "db \<lparr>db = Some [completed_row, pending_row]\<rparr> = Some [completed_row, pending_row]"
    by simp
  show ?thesis
    using h deleteOlderThan_exact [OF h, of 10000000 1]
    by (simp add: deleteOlderThan_def completed_row_def pending_row_def)
qed

subsection \<open>Distinct column values\<close>

lemma set_select_distinct_ordered: "set (select_distinct_ordered vs) = set vs"
  by (simp add: select_distinct_ordered_def)

text \<open>
  C10: on an open database the list of distinct content types never holds the empty
  string: it holds exactly the non-empty content types of the stored rows. The lists of
  distinct hosts and of distinct methods hold every value of their column, the empty
  string included when a row has it.
\<close>

theorem distinct_content_types_exclude_empty:
  assumes "db s = Some rows"
  shows "\<exists>cts hs ms.
           getUniqueContentTypes s = Inr cts \<and> getUniqueHosts s = Inr hs \<and>
           getUniqueMethods s = Inr ms \<and>
           [] \<notin> set cts \<and> set cts = content_type ` set rows - {[]} \<and>
           set hs = host ` set rows \<and> set ms = method_col ` set rows"
  using assms
  by (auto simp: getUniqueContentTypes_def getUniqueHosts_def getUniqueMethods_def
                 set_select_distinct_ordered)

theorem distinct_content_types_exclude_empty_witness:
  "db \<lparr>db = Some [completed_row, pending_row\<lparr>host := []\<rparr>]\<rparr>
     = Some [completed_row, pending_row\<lparr>host := []\<rparr>] \<and>
   getUniqueContentTypes \<lparr>db = Some [completed_row, pending_row\<lparr>host := []\<rparr>]\<rparr>
     = Inr [''text/plain''] \<and>
   getUniqueHosts \<lparr>db = Some [completed_row, pending_row\<lparr>host := []\<rparr>]\<rparr>
     = Inr [[], ''example.test'']"
proof -
  have h: "db \<lparr>db = Some [completed_row, pending_row\<lparr>host := []\<rparr>]\<rparr>
             = Some [completed_row, pending_row\<lparr>host := []\<rparr>]"
    by simp
  show ?thesis
    using h distinct_content_types_exclude_empty [OF h]
    by (simp add: getUniqueContentTypes_def getUniqueHosts_def select_distinct_ordered_def
                  completed_row_def pending_row_def)
qed

subsection \<open>LIKE on texts without pattern characters\<close>

lemma like_percent_only: "like ''%'' s"
  by (induction s) auto

lemma like_plain_prefix: "wildcard_free q \<Longrightarrow> like (q @ ''%'') s = ci_prefix q s"
proof (induction q arbitrary: s)
  case Nil
  then show ?case using like_percent_only by simp
next
  case (Cons a q)
  then show ?case by (cases s) (auto simp: wildcard_free_def)
qed

lemma like_substring: "wildcard_free q \<Longrightarrow> like (''%'' @ q @ ''%'') s = ci_substring q s"
proof (induction s)
  case Nil
  then show ?case using like_plain_prefix[of q "[]"] by simp
next
  case (Cons c t)
  then show ?case using like_plain_prefix[of q "c # t"] by simp
qed

text \<open>
  \<open>ci_prefix\<close> and \<open>ci_substring\<close> say what their names say: a stretch of the text
  equals the sought text once both are lowered.
\<close>

lemma ci_prefix_iff:
  "ci_prefix q s = (\<exists>mid post. s = mid @ post \<and> map ascii_lower mid = map ascii_lower q)"
proof (induction q s rule: ci_prefix.induct)
  case (1 s)
  then show ?case by simp
next
  case (2 q qs)
  then show ?case by simp
next
  case (3 q qs c t)
  show ?case
  proof
    assume "ci_prefix (q # qs) (c # t)"
    with 3 obtain mid post where
      "t = mid @ post" "map ascii_lower mid = map ascii_lower qs" "ascii_lower q = ascii_lower c"
      by auto
    then have "c # t = (c # mid) @ post \<and> map ascii_lower (c # mid) = map ascii_lower (q # qs)"
      by simp
    then show "\<exists>mid post. c # t = mid @ post \<and> map ascii_lower mid = map ascii_lower (q # qs)"
      by blast
  next
    assume "\<exists>mid post. c # t = mid @ post \<and> map ascii_lower mid = map ascii_lower (q # qs)"
    then obtain mid post where
      m: "c # t = mid @ post" "map ascii_lower mid = map ascii_lower (q # qs)"
      by blast
    then obtain m' where "mid = c # m'" by (cases mid) auto
    with m 3 show "ci_prefix (q # qs) (c # t)" by auto
  qed
qed

lemma ci_substring_iff:
  "ci_substring q s =
     (\<exists>pre mid post. s = pre @ mid @ post \<and> map ascii_lower mid = map ascii_lower q)"
proof (induction s)
  case Nil
  then show ?case by (cases q) auto
next
  case (Cons c t)
  show ?case
  proof
    assume "ci_substring q (c # t)"
    then consider "ci_prefix q (c # t)" | "ci_substring q t" by auto
    then show "\<exists>pre mid post. c # t = pre @ mid @ post \<and> map ascii_lower mid = map ascii_lower q"
    proof cases
      case 1
      then obtain mid post where
        "c # t = [] @ mid @ post \<and> map ascii_lower mid = map ascii_lower q"
        unfolding ci_prefix_iff by auto
      then show ?thesis by blast
    next
      case 2
      with Cons.IH obtain pre mid post where
        "t = pre @ mid @ post" "map ascii_lower mid = map ascii_lower q"
        by blast
      then have "c # t = (c # pre) @ mid @ post \<and> map ascii_lower mid = map ascii_lower q"
        by simp
      then show ?thesis by blast
    qed
  next
    assume "\<exists>pre mid post. c # t = pre @ mid @ post \<and> map ascii_lower mid = map ascii_lower q"
    then obtain pre mid post where
      m: "c # t = pre @ mid @ post" "map ascii_lower mid = map ascii_lower q"
      by blast
    show "ci_substring q (c # t)"
    proof (cases pre)
      case Nil
      with m have "ci_prefix q (c # t)" unfolding ci_prefix_iff by auto
      then show ?thesis by simp
    next
      case (Cons a pre')
      with m have "t = pre' @ mid @ post" by simp
      with m Cons.IH have "ci_substring q t" by blast
      then show ?thesis by simp
    qed
  qed
qed

lemma ci_substring_empty: "ci_substring [] s"
  by (induction s) auto

subsection \<open>The query\<close>

lemma search_condition_plain: "wildcard_free q \<Longrightarrow> search_condition q r = text_matches q r"
  using like_substring[of q] by (simp add: search_condition_def text_matches_def Let_def)

lemma content_type_condition_plain:
  "list_all wildcard_free cts \<Longrightarrow>
   content_type_condition cts r = list_ex (\<lambda>ct. ci_substring ct (content_type r)) cts"
  using like_substring
  by (induction cts) (auto simp: content_type_condition_def)

lemma where_conditions_conjunction:
  assumes "wildcard_free_filter f"
  shows "list_all (\<lambda>c. c r) (where_conditions (Some f)) = satisfies_all_predicates f r"
  using assms
  by (auto simp: where_conditions_def satisfies_all_predicates_def wildcard_free_filter_def
                 search_condition_plain content_type_condition_plain text_matches_def
                 ci_substring_empty
           split: option.splits)

lemma sorted_desc_order_by:
  "sorted_wrt (\<lambda>a b. timestamp a \<ge> timestamp b) (order_by_timestamp_desc tie rows)"
proof -
  have "sorted (map (\<lambda>r. - timestamp r) (order_by_timestamp_desc tie rows))"
    by (simp add: order_by_timestamp_desc_def)
  then show ?thesis
    by (simp add: sorted_map sorted_wrt_iff_nth_less)
qed

lemma mset_order_by: "mset (order_by_timestamp_desc tie rows) = mset rows"
  by (simp add: order_by_timestamp_desc_def)

text \<open>
  C3, as stated, fails in three places. An offset given without a limit is ignored: the
  offset 1 alone returns both rows. A limit of 0 is not applied either. And the free text
  is a \<^verbatim>\<open>LIKE\<close> pattern: \<^verbatim>\<open>log_n\<close> selects the row whose url holds \<^verbatim>\<open>Login\<close>, although
  \<^verbatim>\<open>log_n\<close> is a substring of none of its url, host and path.
\<close>

theorem query_offset_counterexample:
  "getRequests id_col (Some (empty_filter\<lparr>offset := Some 1\<rparr>)) \<lparr>db = Some [completed_row, pending_row]\<rparr>
     = Inr [pending_row, completed_row] \<and>
   getRequests id_col (Some (empty_filter\<lparr>limit := Some 0\<rparr>)) \<lparr>db = Some [completed_row, pending_row]\<rparr>
     = Inr [pending_row, completed_row] \<and>
   getRequests id_col (Some (empty_filter\<lparr>searchQuery := Some ''log_n''\<rparr>))
       \<lparr>db = Some [completed_row, pending_row]\<rparr>
     = Inr [pending_row] \<and>
   \<not> text_matches ''log_n'' pending_row"
  by (simp add: getRequests_def pagination_def empty_filter_def where_conditions_def
                select_where_def order_by_timestamp_desc_def search_condition_def
                text_matches_def ascii_lower_def completed_row_def pending_row_def)

text \<open>
  C3, amended: for a filter whose free text and content-type texts hold neither \<^verbatim>\<open>%\<close>
  nor \<^verbatim>\<open>_\<close>, the query on an open database selects the stored rows that satisfy all
  predicates of the filter at once, the free text being sought in url, host and path
  without regard to the case of ASCII letters, and orders them by timestamp descending.
  Of that list it returns everything when the limit is absent or 0 (the offset is then
  ignored), and for a positive limit \<open>l\<close> the first \<open>l\<close> rows after the offset, an absent
  offset counting as 0.
\<close>

theorem getRequests_conjunctive_ordered_paged:
  assumes "db s = Some rows" and "wildcard_free_filter f"
  shows "\<exists>res sel.
           getRequests tie (Some f) s = Inr res \<and>
           mset sel = mset (filter (satisfies_all_predicates f) rows) \<and>
           sorted_wrt (\<lambda>a b. timestamp a \<ge> timestamp b) sel \<and>
           (limit f = None \<or> limit f = Some 0 \<longrightarrow> res = sel) \<and>
           (\<forall>l k. limit f = Some l \<and> 0 < l \<and>
                  (offset f = Some k \<and> 0 \<le> k \<or> offset f = None \<and> k = 0)
                  \<longrightarrow> res = take (nat l) (drop (nat k) sel))"
proof -
  let ?sel = "order_by_timestamp_desc tie (select_where (where_conditions (Some f)) rows)"
  have same: "select_where (where_conditions (Some f)) rows
                = filter (satisfies_all_predicates f) rows"
    unfolding select_where_def using where_conditions_conjunction[OF assms(2)] by simp
  have run: "getRequests tie (Some f) s = Inr (pagination (Some f) ?sel)"
    using assms(1) by (simp add: getRequests_def)
  have m: "mset ?sel = mset (filter (satisfies_all_predicates f) rows)"
    by (simp only: mset_order_by same)
  have p1: "limit f = None \<or> limit f = Some 0 \<longrightarrow> pagination (Some f) ?sel = ?sel"
    by (auto simp: pagination_def)
  have p2: "\<forall>l k. limit f = Some l \<and> 0 < l \<and>
                  (offset f = Some k \<and> 0 \<le> k \<or> offset f = None \<and> k = 0)
                  \<longrightarrow> pagination (Some f) ?sel = take (nat l) (drop (nat k) ?sel)"
    by (auto simp: pagination_def sql_limit_def sql_offset_def)
  from run m sorted_desc_order_by p1 p2 show ?thesis
    by blast
qed

theorem getRequests_conjunctive_ordered_paged_witness:
  "db \<lparr>db = Some [completed_row, pending_row, no_content_row]\<rparr>
     = Some [completed_row, pending_row, no_content_row] \<and>
   wildcard_free_filter
     (empty_filter\<lparr>searchQuery := Some ''TEST/'', methods := Some [''GET''],
                   limit := Some 1, offset := Some 1\<rparr>) \<and>
   getRequests id_col
     (Some (empty_filter\<lparr>searchQuery := Some ''TEST/'', methods := Some [''GET''],
                         limit := Some 1, offset := Some 1\<rparr>))
     \<lparr>db = Some [completed_row, pending_row, no_content_row]\<rparr>
     = Inr [completed_row]"
proof -
  let ?f = "empty_filter\<lparr>searchQuery := Some ''TEST/'', methods := Some [''GET''],
                        limit := Some 1, offset := Some 1\<rparr>"
  have h1: "db \<lparr>db = Some [completed_row, pending_row, no_content_row]\<rparr>
              = Some [completed_row, pending_row, no_content_row]"
    by simp
  have h2: "wildcard_free_filter ?f"
    by (simp add: wildcard_free_filter_def wildcard_free_def empty_filter_def)
  have run: "getRequests id_col (Some ?f) \<lparr>db = Some [completed_row, pending_row, no_content_row]\<rparr>
               = Inr [completed_row]"
    by (simp add: getRequests_def pagination_def empty_filter_def where_conditions_def
                  select_where_def order_by_timestamp_desc_def search_condition_def
                  sql_limit_def sql_offset_def ascii_lower_def
                  completed_row_def pending_row_def no_content_row_def)
  show ?thesis
    using h1 h2 run getRequests_conjunctive_ordered_paged [OF h1 h2]
    by simp
qed

subsection \<open>The count\<close>

text \<open>
  C4 fails on the code: \<^verbatim>\<open>getRequestCount\<close> reads only the free text of its filter.
  With the filter \<^verbatim>\<open>{methods: ["POST"]}\<close> on a table of one GET and one POST it
  counts 2, while \<^verbatim>\<open>getRequests\<close> with the same filter returns the one POST row.
\<close>

theorem count_ignores_methods:
  "getRequestCount (Some (empty_filter\<lparr>methods := Some [''POST'']\<rparr>))
       \<lparr>db = Some [completed_row, pending_row]\<rparr>
     = Inr 2 \<and>
   getRequests id_col (Some (empty_filter\<lparr>methods := Some [''POST'']\<rparr>))
       \<lparr>db = Some [completed_row, pending_row]\<rparr>
     = Inr [pending_row]"
  by (simp add: getRequestCount_def getRequests_def pagination_def empty_filter_def
                where_conditions_def select_where_def order_by_timestamp_desc_def
                completed_row_def pending_row_def)

subsection \<open>The status predicate\<close>

lemma select_where_status:
  assumes "statusCodes f = Some cs" and "cs \<noteq> []"
  shows "select_where (where_conditions (Some f)) rows
           = filter (\<lambda>r. status r \<in> set cs)
               (select_where (where_conditions (Some (f\<lparr>statusCodes := None\<rparr>))) rows)"
  using assms
  by (auto simp: select_where_def where_conditions_def intro!: filter_cong split: option.splits)

text \<open>
  C7, as stated, fails: the status predicate of the code's filter is a list of numbers
  put into \<^verbatim>\<open>status IN (...)\<close>, and nothing expands a bucket. With the bucket 2xx
  named by its first status, 200, the row answered with 204 is not returned, although 204
  lies in the bucket's range.
\<close>

theorem status_bucket_counterexample:
  "in_bucket Bucket_2xx (status no_content_row) \<and>
   getRequests id_col (Some (empty_filter\<lparr>statusCodes := Some [fst (bucket_range Bucket_2xx)]\<rparr>))
       \<lparr>db = Some [completed_row, no_content_row]\<rparr>
     = Inr [completed_row]"
  by (simp add: in_bucket_def getRequests_def pagination_def empty_filter_def
                where_conditions_def select_where_def order_by_timestamp_desc_def
                completed_row_def no_content_row_def)

text \<open>
  C7, amended: the status predicate is literal. For a filter with a non-empty list of
  status codes and no limit, the query returns, ordered by timestamp descending, exactly
  those rows of the query without the status predicate whose status equals one of the
  listed values, each as often as that query returns it, whatever order the engine
  gives to rows with equal timestamps in either query. A whole bucket is therefore
  selected only by listing every status of its range.
\<close>

theorem status_filter_literal:
  assumes "db s = Some rows" and "statusCodes f = Some cs" and "cs \<noteq> []"
    and "limit f = None"
  shows "\<exists>res others.
           getRequests tie (Some f) s = Inr res \<and>
           getRequests tie' (Some (f\<lparr>statusCodes := None\<rparr>)) s = Inr others \<and>
           mset res = filter_mset (\<lambda>r. status r \<in> set cs) (mset others) \<and>
           sorted_wrt (\<lambda>a b. timestamp a \<ge> timestamp b) res"
proof -
  let ?with = "select_where (where_conditions (Some f)) rows"
  let ?without = "select_where (where_conditions (Some (f\<lparr>statusCodes := None\<rparr>))) rows"
  have sel: "?with = filter (\<lambda>r. status r \<in> set cs) ?without"
    by (rule select_where_status[OF assms(2) assms(3)])
  have r1: "getRequests tie (Some f) s = Inr (order_by_timestamp_desc tie ?with)"
    using assms(1) assms(4) by (simp add: getRequests_def pagination_def)
  have r2: "getRequests tie' (Some (f\<lparr>statusCodes := None\<rparr>)) s
              = Inr (order_by_timestamp_desc tie' ?without)"
    using assms(1) assms(4) by (simp add: getRequests_def pagination_def)
  have m: "mset (order_by_timestamp_desc tie ?with)
             = filter_mset (\<lambda>r. status r \<in> set cs) (mset (order_by_timestamp_desc tie' ?without))"
    by (simp only: mset_order_by sel mset_filter)
  from r1 r2 m sorted_desc_order_by show ?thesis
    by blast
qed

theorem status_filter_literal_witness:
  "db \<lparr>db = Some [completed_row, pending_row, no_content_row]\<rparr>
     = Some [completed_row, pending_row, no_content_row] \<and>
   statusCodes (empty_filter\<lparr>statusCodes := Some [200..299]\<rparr>) = Some [200..299] \<and>
   [200..299] \<noteq> [] \<and>
   limit (empty_filter\<lparr>statusCodes := Some [200..299]\<rparr>) = None \<and>
   getRequests id_col (Some (empty_filter\<lparr>statusCodes := Some [200..299]\<rparr>))
       \<lparr>db = Some [completed_row, pending_row, no_content_row]\<rparr>
     = Inr [no_content_row, completed_row] \<and>
   getRequests (\<lambda>r. - id_col r)
       (Some (empty_filter\<lparr>statusCodes := Some [200..299], statusCodes := None\<rparr>))
       \<lparr>db = Some [completed_row, pending_row, no_content_row]\<rparr>
     = Inr [no_content_row, pending_row, completed_row]"
proof -
  have h1: "db \<lparr>db = Some [completed_row, pending_row, no_content_row]\<rparr>
              = Some [completed_row, pending_row, no_content_row]"
    by simp
  have h2: "statusCodes (empty_filter\<lparr>statusCodes := Some [200..299]\<rparr>) = Some [200..299]"
    by simp
  have h3: "[200..299] \<noteq> ([]::int list)"
    by (simp add: upto.simps)
  have h4: "limit (empty_filter\<lparr>statusCodes := Some [200..299]\<rparr>) = None"
    by (simp add: empty_filter_def)
  have run: "getRequests id_col (Some (empty_filter\<lparr>statusCodes := Some [200..299]\<rparr>))
               \<lparr>db = Some [completed_row, pending_row, no_content_row]\<rparr>
             = Inr [no_content_row, completed_row]"
    by (simp add: getRequests_def pagination_def empty_filter_def where_conditions_def
                  select_where_def order_by_timestamp_desc_def
                  completed_row_def pending_row_def no_content_row_def)
  have run': "getRequests (\<lambda>r. - id_col r) (Some (empty_filter\<lparr>statusCodes := None\<rparr>))
               \<lparr>db = Some [completed_row, pending_row, no_content_row]\<rparr>
             = Inr [no_content_row, pending_row, completed_row]"
    by (simp add: getRequests_def pagination_def empty_filter_def where_conditions_def
                  select_where_def order_by_timestamp_desc_def
                  completed_row_def pending_row_def no_content_row_def)
  show ?thesis
    using h1 h2 h3 h4 run run'
      status_filter_literal [OF h1 h2 h3 h4, of id_col "\<lambda>r. - id_col r"]
    by simp
qed

section \<open>Properties of the certificate manager\<close>

subsection \<open>The example installation, evaluated\<close>

lemma example_paths:
  "new_CertificateManager ''/data'' =
     \<lparr>certsDir = ''/data/certificates'',
      caKeyPath = ''/data/certificates/rootCA.key'',
      caCertPath = ''/data/certificates/rootCA.crt'',
      caKey = None, caCert = None\<rparr>"
  by (simp add: new_CertificateManager_def path_join_def)

lemma example_ca_key: "caKey loaded_manager = Some (PrivateKey 2048 1000)"
  by (simp add: loaded_manager_def first_run_def example_paths initialize_def caExists_def
                existsSync_def mkdirSync_def empty_install_def generateCA_def
                generateKeyPair_def generateSerialNumber_def example_world_def Let_def)

lemma example_ca_cert: "\<exists>c. caCert loaded_manager = Some c \<and> subject c = ca_attrs"
  by (simp add: loaded_manager_def first_run_def example_paths initialize_def caExists_def
                existsSync_def mkdirSync_def empty_install_def generateCA_def
                generateKeyPair_def generateSerialNumber_def example_world_def Let_def
                sign_def createCertificate_def)

lemma example_world_after:
  "world_after_first_run = example_world\<lparr>rsa_calls := 1, random_calls := 1\<rparr>"
  by (simp add: world_after_first_run_def first_run_def example_paths initialize_def
                caExists_def existsSync_def mkdirSync_def empty_install_def generateCA_def
                generateKeyPair_def generateSerialNumber_def example_world_def Let_def)

subsection \<open>Failure without a CA\<close>

text \<open>
  A new manager holds no certificate without a key, and \<^verbatim>\<open>initialize\<close> keeps it so,
  whatever its outcome.
\<close>

lemma key_before_cert_new: "key_before_cert (new_CertificateManager u)"
  by (simp add: key_before_cert_def new_CertificateManager_def Let_def)

lemma key_before_cert_loadCA:
  "key_before_cert m \<Longrightarrow> key_before_cert (snd (loadCA m fs))"
  by (auto simp: key_before_cert_def loadCA_def split: sum.splits)

lemma key_before_cert_generateCA: "key_before_cert (fst (generateCA m fs w))"
  by (simp add: key_before_cert_def generateCA_def Let_def split: prod.splits)

lemma key_before_cert_initialize:
  "key_before_cert m \<Longrightarrow> key_before_cert (fst (snd (initialize m fs w)))"
  using key_before_cert_loadCA[of m] key_before_cert_generateCA[of m]
  by (simp add: initialize_def Let_def case_prod_beta)

text \<open>
  C9: for a manager that holds no certificate without a key, leaf minting, the PEM
  export and the DER export each fail if and only if the CA is not loaded, and the
  failure is the error \<open>CA_not_initialized\<close>. A failed mint consumes nothing: the world
  is returned as it was, no key is generated, and the manager, which minting never
  assigns to, has no cache that could be left half filled.
\<close>

theorem error_iff_ca_not_loaded:
  assumes "key_before_cert m"
  shows "(isl (fst (generateServerCert m w domain)) \<longleftrightarrow> \<not> ca_loaded m) \<and>
         (isl (getCertPem m) \<longleftrightarrow> \<not> ca_loaded m) \<and>
         (isl (getCertDer m) \<longleftrightarrow> \<not> ca_loaded m) \<and>
         (\<not> ca_loaded m \<longrightarrow>
            generateServerCert m w domain = (Inl CA_not_initialized, w) \<and>
            getCertPem m = Inl CA_not_initialized \<and>
            getCertDer m = Inl CA_not_initialized)"
  using assms
  by (auto simp: key_before_cert_def ca_loaded_def generateServerCert_def getCertPem_def
                 getCertDer_def Let_def
           split: option.splits prod.splits)

theorem error_iff_ca_not_loaded_witness:
  "key_before_cert (new_CertificateManager ''/data'') \<and>
   \<not> ca_loaded (new_CertificateManager ''/data'') \<and>
   generateServerCert (new_CertificateManager ''/data'') example_world ''a.test''
     = (Inl CA_not_initialized, example_world) \<and>
   getCertPem (new_CertificateManager ''/data'') = Inl CA_not_initialized \<and>
   getCertDer (new_CertificateManager ''/data'') = Inl CA_not_initialized \<and>
   key_before_cert loaded_manager \<and> ca_loaded loaded_manager \<and>
   \<not> isl (fst (generateServerCert loaded_manager example_world ''a.test'')) \<and>
   \<not> isl (getCertPem loaded_manager) \<and> \<not> isl (getCertDer loaded_manager)"
proof -
  have h1: "key_before_cert (new_CertificateManager ''/data'')"
    by (rule key_before_cert_new)
  have n1: "\<not> ca_loaded (new_CertificateManager ''/data'')"
    by (simp add: ca_loaded_def example_paths)
  have h2: "key_before_cert loaded_manager"
    unfolding loaded_manager_def first_run_def
    by (rule key_before_cert_initialize[OF h1])
  have n2: "ca_loaded loaded_manager"
    using example_ca_key example_ca_cert by (auto simp: ca_loaded_def)
  show ?thesis
    using h1 n1 h2 n2
      error_iff_ca_not_loaded [OF h1, of example_world "''a.test''"]
      error_iff_ca_not_loaded [OF h2, of example_world "''a.test''"]
    by simp
qed

subsection \<open>Minting twice\<close>

text \<open>
  C1, as stated, fails: the manager keeps no leaf cache and coalesces nothing. Two mints
  for \<^verbatim>\<open>a.test\<close>, one after the other with nothing in between, return different pairs,
  as the key generator gives each its own key.
\<close>

theorem mint_twice_counterexample:
  "fst (generateServerCert loaded_manager world_after_first_run ''a.test'')
     \<noteq> fst (generateServerCert loaded_manager
              (snd (generateServerCert loaded_manager world_after_first_run ''a.test''))
              ''a.test'')"
proof -
  obtain c where c: "caCert loaded_manager = Some c"
    using example_ca_cert by blast
  show ?thesis
    by (simp add: generateServerCert_def example_ca_key c example_world_after
                  generateKeyPair_def generateSerialNumber_def example_world_def
                  privateKeyToPem_def Let_def)
qed

text \<open>
  C1, amended: with the CA loaded, every mint runs its own key generation and signing.
  Two successive mints for a hostname both succeed, each draws the next key of the
  generator and returns that very key, and the manager is not touched; the two pairs are
  identical only if the generator produced the same key twice.
\<close>

theorem every_mint_generates:
  assumes "caKey m = Some k" and "caCert m = Some ca"
  shows "\<exists>r1 w1 r2 w2.
           generateServerCert m w domain = (Inr r1, w1) \<and>
           generateServerCert m w1 domain = (Inr r2, w2) \<and>
           rsa_calls w1 = rsa_calls w + 1 \<and> rsa_calls w2 = rsa_calls w + 2 \<and>
           key r1 = privateKeyToPem (PrivateKey 2048 (rsa_stream w (rsa_calls w))) \<and>
           key r2 = privateKeyToPem (PrivateKey 2048 (rsa_stream w (rsa_calls w + 1))) \<and>
           (r1 = r2 \<longrightarrow> rsa_stream w (rsa_calls w) = rsa_stream w (rsa_calls w + 1))"
  using assms
  by (auto simp: generateServerCert_def generateKeyPair_def generateSerialNumber_def
                 privateKeyToPem_def Let_def)

theorem every_mint_generates_witness:
  "caKey loaded_manager = Some (PrivateKey 2048 1000) \<and>
   key (projr (fst (generateServerCert loaded_manager world_after_first_run ''a.test'')))
     = privateKeyToPem (PrivateKey 2048 1001) \<and>
   key (projr (fst (generateServerCert loaded_manager
                      (snd (generateServerCert loaded_manager world_after_first_run ''a.test''))
                      ''a.test'')))
     = privateKeyToPem (PrivateKey 2048 1002)"
proof -
  obtain c where c: "caCert loaded_manager = Some c"
    using example_ca_cert by blast
  show ?thesis
    using example_ca_key c
      every_mint_generates [OF example_ca_key c, of world_after_first_run "''a.test''"]
    by (auto simp: example_world_after example_world_def)
qed

subsection \<open>What a leaf certificate holds\<close>

lemma next_year_not_leap: "is_leap_year y \<Longrightarrow> \<not> is_leap_year (y + 1)"
  unfolding is_leap_year_def by presburger

lemma new_Date_next_year:
  assumes "calendar_date d"
  shows "new_Date gap (fullYear d + 1) (month d) (date d) =
           (if month d = 1 \<and> date d = 29
            then start_of_day gap (fullYear d + 1) 2 1
            else start_of_day gap (fullYear d + 1) (month d) (date d))"
proof (cases "month d = 1")
  case True
  show ?thesis
  proof (cases "date d = 29")
    case True
    with \<open>month d = 1\<close> assms have "is_leap_year (fullYear d)"
      by (auto simp: calendar_date_def days_in_month_def split: if_splits)
    then have "\<not> is_leap_year (fullYear d + 1)"
      by (rule next_year_not_leap)
    with True \<open>month d = 1\<close> show ?thesis
      by (simp add: new_Date_def days_in_month_def)
  next
    case False
    with \<open>month d = 1\<close> assms have "date d \<le> 28"
      by (auto simp: calendar_date_def days_in_month_def split: if_splits)
    with False \<open>month d = 1\<close> show ?thesis
      by (simp add: new_Date_def days_in_month_def)
  qed
next
  case False
  with assms have "date d \<le> days_in_month (fullYear d + 1) (month d)"
    by (simp add: calendar_date_def days_in_month_def)
  with False show ?thesis
    by (simp add: new_Date_def)
qed

text \<open>
  The test for an IP address accepts exactly the texts of the shape the regular expression
  describes: digits, dot, digits, dot, digits, dot, digits, each run of one to three.
\<close>

lemma split_on_not_Nil: "split_on sep s \<noteq> []"
  by (induction s) (auto split: list.splits)

lemma split_on_plain: "sep \<notin> set a \<Longrightarrow> split_on sep a = [a]"
  by (induction a) auto

lemma split_on_append: "sep \<notin> set a \<Longrightarrow> split_on sep (a @ sep # rest) = a # split_on sep rest"
  by (induction a) auto

lemma split_on_Cons:
  "split_on sep s = p # ps \<Longrightarrow>
   sep \<notin> set p \<and> (if ps = [] then s = p else \<exists>rest. s = p @ sep # rest \<and> split_on sep rest = ps)"
proof (induction s arbitrary: p ps)
  case Nil
  then show ?case by simp
next
  case (Cons c cs)
  show ?case
  proof (cases "c = sep")
    case True
    with Cons.prems have e: "p = []" "ps = split_on sep cs" by simp_all
    have "ps \<noteq> []"
      unfolding e by (rule split_on_not_Nil)
    moreover have "c # cs = p @ sep # cs \<and> split_on sep cs = ps"
      using True e by simp
    ultimately show ?thesis
      using e(1) by auto
  next
    case False
    obtain q qs where q: "split_on sep cs = q # qs"
      using split_on_not_Nil[of sep cs] by (cases "split_on sep cs") simp_all
    with False Cons.prems have pq: "p = c # q" "ps = qs" by simp_all
    from Cons.IH[OF q] have ih1: "sep \<notin> set q" and
      ih2: "if qs = [] then cs = q else \<exists>rest. cs = q @ sep # rest \<and> split_on sep rest = qs"
      by simp_all
    have n: "sep \<notin> set p"
      using pq(1) ih1 False by simp
    show ?thesis
    proof (cases "qs = []")
      case True
      with ih2 have "cs = q" by simp
      with pq True n show ?thesis by simp
    next
      case False
      with ih2 obtain rest where r: "cs = q @ sep # rest" "split_on sep rest = qs" by auto
      then have "c # cs = p @ sep # rest \<and> split_on sep rest = ps"
        using pq by simp
      then have "\<exists>rest. c # cs = p @ sep # rest \<and> split_on sep rest = ps"
        by (rule exI)
      with False pq(2) n show ?thesis by simp
    qed
  qed
qed

lemma four_elements: "length xs = 4 \<Longrightarrow> \<exists>a b c d. xs = [a, b, c, d]"
proof -
  assume "length xs = 4"
  then have "length xs = Suc (Suc (Suc (Suc 0)))" by simp
  then show ?thesis by (auto simp: length_Suc_conv)
qed

lemma digits_no_dot:
  assumes "digits_1_3 a"
  shows "CHR ''.'' \<notin> set a"
proof
  assume "CHR ''.'' \<in> set a"
  with assms have "is_digit CHR ''.''"
    by (simp add: digits_1_3_def list_all_iff)
  then show False
    by (simp add: is_digit_def)
qed

lemma isIp_iff_pattern:
  "isIp domain \<longleftrightarrow>
     (\<exists>a b c d. domain = a @ ''.'' @ b @ ''.'' @ c @ ''.'' @ d \<and>
                digits_1_3 a \<and> digits_1_3 b \<and> digits_1_3 c \<and> digits_1_3 d)"
proof
  assume "isIp domain"
  then have l: "length (split_on CHR ''.'' domain) = 4"
    and all: "list_all digits_1_3 (split_on CHR ''.'' domain)"
    by (simp_all add: isIp_def Let_def)
  from l obtain a b c d where s: "split_on CHR ''.'' domain = [a, b, c, d]"
    using four_elements by blast
  with all have g: "digits_1_3 a" "digits_1_3 b" "digits_1_3 c" "digits_1_3 d"
    by simp_all
  from split_on_Cons[OF s] obtain r1 where r1: "domain = a @ CHR ''.'' # r1"
    "split_on CHR ''.'' r1 = [b, c, d]" by auto
  from split_on_Cons[OF r1(2)] obtain r2 where r2: "r1 = b @ CHR ''.'' # r2"
    "split_on CHR ''.'' r2 = [c, d]" by auto
  from split_on_Cons[OF r2(2)] obtain r3 where r3: "r2 = c @ CHR ''.'' # r3"
    "split_on CHR ''.'' r3 = [d]" by auto
  from split_on_Cons[OF r3(2)] have "r3 = d" by simp
  with r1(1) r2(1) r3(1) have "domain = a @ ''.'' @ b @ ''.'' @ c @ ''.'' @ d" by simp
  with g show "\<exists>a b c d. domain = a @ ''.'' @ b @ ''.'' @ c @ ''.'' @ d \<and>
                digits_1_3 a \<and> digits_1_3 b \<and> digits_1_3 c \<and> digits_1_3 d"
    by blast
next
  assume "\<exists>a b c d. domain = a @ ''.'' @ b @ ''.'' @ c @ ''.'' @ d \<and>
                digits_1_3 a \<and> digits_1_3 b \<and> digits_1_3 c \<and> digits_1_3 d"
  then obtain a b c d where dm: "domain = a @ ''.'' @ b @ ''.'' @ c @ ''.'' @ d"
    and g: "digits_1_3 a" "digits_1_3 b" "digits_1_3 c" "digits_1_3 d"
    by blast
  have "split_on CHR ''.'' domain = [a, b, c, d]"
    unfolding dm using g
    by (simp add: split_on_append split_on_plain digits_no_dot)
  with g show "isIp domain"
    by (simp add: isIp_def)
qed

text \<open>
  Digits and numbers: a group of digits without a leading zero is the decimal text of
  its own value, and cutting a text at its dots and joining the pieces gives it back.
\<close>

lemma digit_facts:
  assumes "is_digit c"
  shows "digit_value c < 10" and "digit_char (digit_value c) = c"
    and "c \<noteq> CHR ''0'' \<Longrightarrow> 1 \<le> digit_value c"
proof -
  from assms have "c = CHR ''0'' \<or> c = CHR ''1'' \<or> c = CHR ''2'' \<or> c = CHR ''3'' \<or>
      c = CHR ''4'' \<or> c = CHR ''5'' \<or> c = CHR ''6'' \<or> c = CHR ''7'' \<or> c = CHR ''8'' \<or>
      c = CHR ''9''"
    by (simp add: is_digit_def)
  then show "digit_value c < 10" and "digit_char (digit_value c) = c"
    and "c \<noteq> CHR ''0'' \<Longrightarrow> 1 \<le> digit_value c"
    by (elim disjE; simp add: digit_value_def digit_char_def)+
qed

lemma three_digits:
  fixes a b c :: nat
  assumes "b < 10" and "c < 10"
  shows "(100 * a + 10 * b + c) div 100 = a"
    and "(100 * a + 10 * b + c) div 10 mod 10 = b"
    and "(100 * a + 10 * b + c) mod 10 = c"
proof -
  show "(100 * a + 10 * b + c) div 100 = a"
    using assms by simp
  have "(100 * a + 10 * b + c) div 10 = 10 * a + b"
    using assms(2) by simp
  then show "(100 * a + 10 * b + c) div 10 mod 10 = b"
    using assms(1) by simp
  have "100 * a + 10 * b + c = 10 * (10 * a + b) + c"
    by simp
  then show "(100 * a + 10 * b + c) mod 10 = c"
    using assms(2) by (simp only: mod_mult_self2_is_0 mod_mult_self4 mod_less)
qed

lemma decimal_text_value:
  assumes "digits_1_3 g" and "length g \<le> 1 \<or> take 1 g \<noteq> ''0''"
  shows "decimal_text (decimal_value g) = g"
proof -
  from assms(1) have len: "length g = 1 \<or> length g = 2 \<or> length g = 3"
    and dig: "\<forall>c \<in> set g. is_digit c"
    by (auto simp: digits_1_3_def list_all_iff)
  from len show ?thesis
  proof (elim disjE)
    assume "length g = 1"
    then obtain a where g: "g = [a]"
      by (cases g) auto
    with dig have "is_digit a" by simp
    from digit_facts(1,2)[OF this] g show ?thesis
      by (simp add: decimal_value_def decimal_text_def)
  next
    assume l: "length g = 2"
    then obtain a b where g: "g = [a, b]"
      by (cases g; cases "tl g") auto
    with dig have d: "is_digit a" "is_digit b" by simp_all
    from assms(2) g have "a \<noteq> CHR ''0''" by simp
    with digit_facts(3)[OF d(1)] have a1: "1 \<le> digit_value a" by simp
    have v: "decimal_value g = 10 * digit_value a + digit_value b"
      using g by (simp add: decimal_value_def)
    have lo: "\<not> 10 * digit_value a + digit_value b < 10"
      using a1 by simp
    have hi: "10 * digit_value a + digit_value b < 100"
      using digit_facts(1)[OF d(1)] digit_facts(1)[OF d(2)] by simp
    have q: "(10 * digit_value a + digit_value b) div 10 = digit_value a"
      "(10 * digit_value a + digit_value b) mod 10 = digit_value b"
      using digit_facts(1)[OF d(2)] by simp_all
    show ?thesis
      unfolding v decimal_text_def using lo hi q digit_facts(2)[OF d(1)] digit_facts(2)[OF d(2)] g
      by simp
  next
    assume l: "length g = 3"
    then obtain a b c where g: "g = [a, b, c]"
      by (cases g; cases "tl g"; cases "tl (tl g)") auto
    with dig have d: "is_digit a" "is_digit b" "is_digit c" by simp_all
    from assms(2) g have "a \<noteq> CHR ''0''" by simp
    with digit_facts(3)[OF d(1)] have a1: "1 \<le> digit_value a" by simp
    let ?n = "100 * digit_value a + 10 * digit_value b + digit_value c"
    have v: "decimal_value g = ?n"
      using g by (simp add: decimal_value_def)
    have lo: "\<not> ?n < 10" "\<not> ?n < 100"
      using a1 by simp_all
    have b10: "digit_value b < 10" "digit_value c < 10"
      using digit_facts(1)[OF d(2)] digit_facts(1)[OF d(3)] by simp_all
    have q: "?n div 100 = digit_value a" "?n div 10 mod 10 = digit_value b"
      "?n mod 10 = digit_value c"
      using b10 by (simp_all add: three_digits)
    show ?thesis
      unfolding v decimal_text_def
      using lo q digit_facts(2)[OF d(1)] digit_facts(2)[OF d(2)] digit_facts(2)[OF d(3)] g
      by simp
  qed
qed

lemma join_dots_Cons: "join_dots ((c # p) # ps) = c # join_dots (p # ps)"
  by (cases ps) simp_all

lemma join_dots_Nil: "ps \<noteq> [] \<Longrightarrow> join_dots ([] # ps) = CHR ''.'' # join_dots ps"
  by (cases ps) simp_all

lemma join_dots_split_on: "join_dots (split_on CHR ''.'' s) = s"
proof (induction s)
  case Nil
  show ?case by simp
next
  case (Cons c cs)
  obtain q qs where q: "split_on CHR ''.'' cs = q # qs"
    using split_on_not_Nil[of "CHR ''.''" cs] by (cases "split_on CHR ''.'' cs") simp_all
  show ?case
  proof (cases "c = CHR ''.''")
    case True
    with Cons.IH show ?thesis
      by (simp add: join_dots_Nil split_on_not_Nil)
  next
    case False
    with Cons.IH q show ?thesis
      by (simp add: join_dots_Cons)
  qed
qed

lemma ipv4_literal_text:
  assumes "ipv4_literal hostname"
  shows "isIp hostname" and "list_all (\<lambda>b. b \<le> 255) (bytesFromIP hostname)"
    and "bytesToIP (bytesFromIP hostname) = hostname"
proof -
  let ?groups = "split_on CHR ''.'' hostname"
  from assms have all: "\<forall>g \<in> set ?groups. digits_1_3 g \<and> decimal_value g \<le> 255 \<and>
                          (length g \<le> 1 \<or> take 1 g \<noteq> ''0'')"
    and four: "length ?groups = 4"
    by (simp_all add: ipv4_literal_def Let_def list_all_iff)
  from all four show "isIp hostname"
    by (simp add: isIp_def Let_def list_all_iff)
  from all show "list_all (\<lambda>b. b \<le> 255) (bytesFromIP hostname)"
    by (simp add: bytesFromIP_def list_all_iff)
  have "map decimal_text (map decimal_value ?groups) = ?groups"
    using all by (simp add: map_idI decimal_text_value)
  then show "bytesToIP (bytesFromIP hostname) = hostname"
    by (simp add: bytesToIP_def bytesFromIP_def join_dots_split_on)
qed

text \<open>
  The model on texts that pass the test without being IPv4 literals: a group above 255
  leaves a text that does not decode, and groups with leading zeros leave the address
  they denote, not the text.
\<close>

lemma loose_ip_texts:
  "isIp ''999.999.999.999'' \<and> \<not> ipv4_literal ''999.999.999.999'' \<and>
   certificateFromPem
     (certificateToPem (createCertificate\<lparr>extensions := [SubjectAltName [IP ''999.999.999.999'']]\<rparr>))
     = Inl Invalid_PEM \<and>
   isIp ''010.000.002.015'' \<and> \<not> ipv4_literal ''010.000.002.015'' \<and>
   encoded_alt_name (IP ''010.000.002.015'') = IP ''10.0.2.15''"
  by (simp add: isIp_def ipv4_literal_def digits_1_3_def is_digit_def decimal_value_def
                digit_value_def certificateFromPem_def certificateToPem_def encodable_def
                createCertificate_def bytesFromIP_def bytesToIP_def decimal_text_def
                digit_char_def)

lemma utc_time_start_of_day: "utc_time (start_of_day gap y m d) = start_of_day gap y m d"
  by (simp add: utc_time_def start_of_day_def)

lemma utc_time_twice: "utc_time (utc_time d) = utc_time d"
  by (simp add: utc_time_def)

text \<open>
  C6, as stated, fails: the validity does not end one year after issuance. A certificate
  minted for \<^verbatim>\<open>a.test\<close> at 15:30 on 5 March 2024 is valid from that instant until
  midnight at the start of 5 March 2025.
\<close>

theorem leaf_contents_counterexample:
  "notBefore (minted_certificate (generateServerCert loaded_manager world_after_first_run ''a.test''))
     = Some \<lparr>fullYear = 2024, month = 2, date = 5,
             d_hours = 15, d_minutes = 30, d_seconds = 0, d_milliseconds = 0\<rparr> \<and>
   notAfter (minted_certificate (generateServerCert loaded_manager world_after_first_run ''a.test''))
     = Some \<lparr>fullYear = 2025, month = 2, date = 5,
             d_hours = 0, d_minutes = 0, d_seconds = 0, d_milliseconds = 0\<rparr> \<and>
   notAfter (minted_certificate (generateServerCert loaded_manager world_after_first_run ''a.test''))
     \<noteq> map_option one_year_after
          (notBefore (minted_certificate
                        (generateServerCert loaded_manager world_after_first_run ''a.test'')))"
proof -
  obtain c where c: "caCert loaded_manager = Some c"
    using example_ca_cert by blast
  have n: "\<not> isIp ''a.test''"
    by (simp add: isIp_def)
  show ?thesis
    using n
    by (simp add: minted_certificate_def generateServerCert_def example_ca_key c
                  example_world_after generateKeyPair_def generateSerialNumber_def
                  example_world_def privateKeyToPem_def certificateToPem_def
                  certificateFromPem_def encodable_def encoded_def utc_time_def
                  sign_def createCertificate_def one_year_after_def
                  new_Date_def start_of_day_def days_in_month_def Let_def)
qed

text \<open>
  C6, amended: take any hostname except the texts that pass the source's test for an IP
  address without being a dotted-quad IPv4 literal (four groups of one to three digits
  with a group above 255 or with a leading zero). With the CA loaded and the clock
  showing a calendar date, minting succeeds and returns a fresh RSA-2048 key with a
  certificate for it that decodes to this: its issuer is the subject of the CA
  certificate; it is signed with the CA key and SHA-256; its validity begins at the
  second of issuance, the milliseconds dropped, and ends at the start, in local time,
  of the same day of the next year (of 1 March when issued on 29 February), which is
  midnight unless a change of the clocks skips that midnight; its extensions are
  basicConstraints with cA false, keyUsage with digitalSignature and keyEncipherment,
  extKeyUsage with serverAuth, and the alternative names DNS:hostname and
  DNS:*.hostname, followed by IP:hostname exactly when the hostname is a dotted-quad
  IPv4 literal.
\<close>

theorem leaf_certificate_contents:
  assumes "caKey m = Some ca_key" and "caCert m = Some ca_cert" and "calendar_date (clock w)"
    and "isIp domain \<longrightarrow> ipv4_literal domain"
  shows "\<exists>n r c na w'.
           generateServerCert m w domain = (Inr r, w') \<and>
           n = rsa_stream w (rsa_calls w) \<and>
           key r = privateKeyToPem (PrivateKey 2048 n) \<and>
           certificateFromPem (cert r) = Inr c \<and>
           publicKey c = Some (PublicKey 2048 n) \<and>
           issuer c = subject ca_cert \<and>
           signature c = Some (ca_key, Sha256) \<and>
           notBefore c = Some ((clock w)\<lparr>d_milliseconds := 0\<rparr>) \<and>
           notAfter c = Some na \<and>
           fullYear na = fullYear (clock w) + 1 \<and>
           month na = (if month (clock w) = 1 \<and> date (clock w) = 29 then 2 else month (clock w)) \<and>
           date na = (if month (clock w) = 1 \<and> date (clock w) = 29 then 1 else date (clock w)) \<and>
           d_hours na = int (midnight_gap w (fullYear na) (month na) (date na) div 60) \<and>
           d_minutes na = int (midnight_gap w (fullYear na) (month na) (date na) mod 60) \<and>
           d_seconds na = 0 \<and> d_milliseconds na = 0 \<and>
           extensions c =
             [BasicConstraints False False,
              KeyUsage [digitalSignature, keyEncipherment] False,
              ExtKeyUsage [serverAuth],
              SubjectAltName ([DNS domain, DNS (''*.'' @ domain)]
                              @ (if ipv4_literal domain then [IP domain] else []))]"
proof -
  let ?n = "rsa_stream w (rsa_calls w)"
  let ?na = "if month (clock w) = 1 \<and> date (clock w) = 29
             then start_of_day (midnight_gap w) (fullYear (clock w) + 1) 2 1
             else start_of_day (midnight_gap w) (fullYear (clock w) + 1)
                    (month (clock w)) (date (clock w))"
  let ?names = "[DNS domain, DNS (''*.'' @ domain)] @ (if isIp domain then [IP domain] else [])"
  let ?exts = "[BasicConstraints False False,
                KeyUsage [digitalSignature, keyEncipherment] False,
                ExtKeyUsage [serverAuth],
                SubjectAltName ?names]"
  let ?x = "\<lparr>publicKey = Some (PublicKey 2048 ?n),
             serialNumber = (clock_ms w, random_stream w (random_calls w)),
             notBefore = Some (clock w),
             notAfter = Some ?na,
             subject = [(''commonName'', domain), (''organizationName'', ''Trafexia'')],
             issuer = subject ca_cert,
             extensions = ?exts,
             signature = Some (ca_key, Sha256)\<rparr>"
  let ?c = "?x\<lparr>notBefore := Some ((clock w)\<lparr>d_milliseconds := 0\<rparr>)\<rparr>"
  let ?w' = "w\<lparr>rsa_calls := Suc (rsa_calls w), random_calls := Suc (random_calls w)\<rparr>"
  have same: "isIp domain \<longleftrightarrow> ipv4_literal domain"
    using assms(4) ipv4_literal_text(1) by blast
  have until: "new_Date (midnight_gap w) (fullYear (clock w) + 1) (month (clock w)) (date (clock w))
                 = ?na"
    by (rule new_Date_next_year[OF assms(3)])
  have run: "generateServerCert m w domain
               = (Inr \<lparr>key = privateKeyToPem (PrivateKey 2048 ?n), cert = certificateToPem ?x\<rparr>, ?w')"
    using assms(1,2) until
    by (simp add: generateServerCert_def generateKeyPair_def generateSerialNumber_def
                  sign_def createCertificate_def Let_def)
  have name: "isIp domain \<Longrightarrow> alt_name_encodable (IP domain) \<and> encoded_alt_name (IP domain) = IP domain"
    using same ipv4_literal_text by simp
  have names: "list_all alt_name_encodable ?names" "map encoded_alt_name ?names = ?names"
    using name by simp_all
  have ex: "list_all extension_encodable ?exts" "map encoded_extension ?exts = ?exts"
    using names by simp_all
  have ena: "utc_time ?na = ?na"
    by (simp add: utc_time_start_of_day)
  have e1: "encodable ?x"
    using ex(1) by (simp add: encodable_def)
  have e2: "encoded ?x = ?c"
    using ex(2) ena by (simp add: encoded_def utc_time_def)
  have e3: "encodable ?c"
    using ex(1) by (simp add: encodable_def)
  have e4: "encoded ?c = ?c"
    using ex(2) ena by (simp add: encoded_def utc_time_def)
  have dec: "certificateFromPem (certificateToPem ?x) = Inr ?c"
    using e1 e2 e3 e4 by (simp add: certificateToPem_def certificateFromPem_def)
  define r where "r = \<lparr>key = privateKeyToPem (PrivateKey 2048 ?n), cert = certificateToPem ?x\<rparr>"
  define c where "c = ?c"
  define na where "na = ?na"
  have f1: "generateServerCert m w domain = (Inr r, ?w')"
    unfolding r_def by (rule run)
  have f2: "key r = privateKeyToPem (PrivateKey 2048 ?n)"
    by (simp add: r_def)
  have f3: "certificateFromPem (cert r) = Inr c"
    using dec by (simp add: r_def c_def)
  have f4: "publicKey c = Some (PublicKey 2048 ?n)" "issuer c = subject ca_cert"
    "signature c = Some (ca_key, Sha256)"
    "notBefore c = Some ((clock w)\<lparr>d_milliseconds := 0\<rparr>)"
    "notAfter c = Some na"
    by (simp_all add: c_def na_def)
  have f5: "fullYear na = fullYear (clock w) + 1"
    "month na = (if month (clock w) = 1 \<and> date (clock w) = 29 then 2 else month (clock w))"
    "date na = (if month (clock w) = 1 \<and> date (clock w) = 29 then 1 else date (clock w))"
    "d_seconds na = 0" "d_milliseconds na = 0"
    by (simp_all add: na_def start_of_day_def)
  have f6: "d_hours na = int (midnight_gap w (fullYear na) (month na) (date na) div 60)"
    "d_minutes na = int (midnight_gap w (fullYear na) (month na) (date na) mod 60)"
    by (simp_all add: na_def start_of_day_def)
  have f7: "extensions c =
             [BasicConstraints False False,
              KeyUsage [digitalSignature, keyEncipherment] False,
              ExtKeyUsage [serverAuth],
              SubjectAltName ([DNS domain, DNS (''*.'' @ domain)]
                              @ (if ipv4_literal domain then [IP domain] else []))]"
    using same by (simp add: c_def)
  show ?thesis
    apply (rule exI[of _ ?n])
    apply (rule exI[of _ r])
    apply (rule exI[of _ c])
    apply (rule exI[of _ na])
    apply (rule exI[of _ ?w'])
    apply (intro conjI)
                    apply (rule f1)
                   apply (rule refl)
                  apply (rule f2)
                 apply (rule f3)
                apply (rule f4(1))
               apply (rule f4(2))
              apply (rule f4(3))
             apply (rule f4(4))
            apply (rule f4(5))
           apply (rule f5(1))
          apply (rule f5(2))
         apply (rule f5(3))
        apply (rule f6(1))
       apply (rule f6(2))
      apply (rule f5(4))
     apply (rule f5(5))
    apply (rule f7)
    done
qed

theorem leaf_certificate_contents_witness:
  "caKey loaded_manager = Some (PrivateKey 2048 1000) \<and>
   calendar_date (clock world_after_first_run) \<and>
   isIp ''10.0.2.15'' \<and> ipv4_literal ''10.0.2.15'' \<and>
   extensions (minted_certificate
                 (generateServerCert loaded_manager world_after_first_run ''10.0.2.15''))
     = [BasicConstraints False False,
        KeyUsage [digitalSignature, keyEncipherment] False,
        ExtKeyUsage [serverAuth],
        SubjectAltName [DNS ''10.0.2.15'', DNS ''*.10.0.2.15'', IP ''10.0.2.15'']] \<and>
   notAfter (minted_certificate
               (generateServerCert loaded_manager world_after_first_run ''10.0.2.15''))
     = Some \<lparr>fullYear = 2025, month = 2, date = 5,
             d_hours = 0, d_minutes = 0, d_seconds = 0, d_milliseconds = 0\<rparr>"
proof -
  obtain c where c: "caCert loaded_manager = Some c"
    using example_ca_cert by blast
  have h3: "calendar_date (clock world_after_first_run)"
    by (simp add: example_world_after example_world_def calendar_date_def days_in_month_def)
  have ip: "ipv4_literal ''10.0.2.15''"
    by (simp add: ipv4_literal_def digits_1_3_def is_digit_def decimal_value_def
                  digit_value_def)
  have h4: "isIp ''10.0.2.15'' \<longrightarrow> ipv4_literal ''10.0.2.15''"
    using ip by simp
  from leaf_certificate_contents [OF example_ca_key c h3 h4]
  obtain n r cc na w' where
    r: "generateServerCert loaded_manager world_after_first_run ''10.0.2.15'' = (Inr r, w')" and
    d: "certificateFromPem (cert r) = Inr cc" and
    na: "notAfter cc = Some na" "fullYear na = fullYear (clock world_after_first_run) + 1"
      "month na = (if month (clock world_after_first_run) = 1 \<and> date (clock world_after_first_run) = 29
                   then 2 else month (clock world_after_first_run))"
      "date na = (if month (clock world_after_first_run) = 1 \<and> date (clock world_after_first_run) = 29
                  then 1 else date (clock world_after_first_run))"
      "d_hours na = int (midnight_gap world_after_first_run (fullYear na) (month na) (date na) div 60)"
      "d_minutes na = int (midnight_gap world_after_first_run (fullYear na) (month na) (date na) mod 60)"
      "d_seconds na = 0" "d_milliseconds na = 0" and
    e: "extensions cc =
             [BasicConstraints False False,
              KeyUsage [digitalSignature, keyEncipherment] False,
              ExtKeyUsage [serverAuth],
              SubjectAltName ([DNS ''10.0.2.15'', DNS (''*.'' @ ''10.0.2.15'')]
                              @ (if ipv4_literal ''10.0.2.15'' then [IP ''10.0.2.15''] else []))]"
    by blast
  have m: "minted_certificate
             (generateServerCert loaded_manager world_after_first_run ''10.0.2.15'') = cc"
    using r d by (simp add: minted_certificate_def)
  have "na = \<lparr>fullYear = 2025, month = 2, date = 5,
              d_hours = 0, d_minutes = 0, d_seconds = 0, d_milliseconds = 0\<rparr>"
    using na(2-8) by (cases na) (simp add: example_world_after example_world_def)
  with na(1) m e ip ipv4_literal_text(1)[OF ip] h3 example_ca_key show ?thesis
    by simp
qed

subsection \<open>Initializing the CA\<close>

lemma paths_distinct_new: "paths_distinct (new_CertificateManager u)"
  by (simp add: paths_distinct_def new_CertificateManager_def path_join_def Let_def)

lemma caExists_after_mkdir:
  "paths_distinct m \<Longrightarrow> caExists m (mkdirSync (certsDir m) fs) = caExists m fs"
  by (auto simp: paths_distinct_def caExists_def existsSync_def mkdirSync_def)

lemma initialize_loads:
  assumes "paths_distinct m" and "caExists m fs"
  shows "\<exists>fs0. files fs0 = files fs \<and>
           initialize m fs w
             = (fst (loadCA m fs0), snd (loadCA m fs0),
                fs # (if existsSync fs (certsDir m) then [] else [fs0]), w)"
proof (cases "existsSync fs (certsDir m)")
  case True
  with assms(2) have "initialize m fs w = (fst (loadCA m fs), snd (loadCA m fs), [fs], w)"
    by (simp add: initialize_def Let_def case_prod_beta)
  with True show ?thesis by auto
next
  case False
  let ?fs0 = "mkdirSync (certsDir m) fs"
  have "caExists m ?fs0"
    using assms caExists_after_mkdir by blast
  with False have "initialize m fs w = (fst (loadCA m ?fs0), snd (loadCA m ?fs0), [fs, ?fs0], w)"
    by (simp add: initialize_def Let_def case_prod_beta)
  moreover have "files ?fs0 = files fs"
    by (simp add: mkdirSync_def)
  ultimately show ?thesis using False by auto
qed

lemma privateKeyFromPem_inverse: "privateKeyFromPem p = Inr k \<Longrightarrow> p = privateKeyToPem k"
  by (simp add: privateKeyFromPem_def privateKeyToPem_def split: pem.splits)

lemma certificateFromPem_inverse: "certificateFromPem p = Inr c \<Longrightarrow> p = certificateToPem c"
  by (simp add: certificateFromPem_def certificateToPem_def split: pem.splits if_splits)

lemma loadCA_ok:
  assumes "loadCA m fs0 = (Inr (), m')"
  shows "\<exists>k c. caKey m' = Some k \<and> caCert m' = Some c \<and>
               files fs0 (caKeyPath m) = Some (privateKeyToPem k) \<and>
               files fs0 (caCertPath m) = Some (certificateToPem c)"
proof -
  from assms obtain keyPem certPem k c where
    f: "files fs0 (caKeyPath m) = Some keyPem" "files fs0 (caCertPath m) = Some certPem" and
    p: "privateKeyFromPem keyPem = Inr k" "certificateFromPem certPem = Inr c" and
    m: "m' = m\<lparr>caKey := Some k, caCert := Some c\<rparr>"
    by (auto simp: loadCA_def readFileSync_def split: option.splits sum.splits)
  from p have "keyPem = privateKeyToPem k" "certPem = certificateToPem c"
    by (simp_all add: privateKeyFromPem_inverse certificateFromPem_inverse)
  with f m show ?thesis
    by simp
qed

lemma generateCA_result:
  "\<exists>k c fs1 fs2.
     generateCA m fs0 w
       = (m\<lparr>caKey := Some k, caCert := Some c\<rparr>, [fs1, fs2],
          w\<lparr>rsa_calls := Suc (rsa_calls w), random_calls := Suc (random_calls w)\<rparr>) \<and>
     k = PrivateKey 2048 (rsa_stream w (rsa_calls w)) \<and>
     publicKey c = Some (PublicKey 2048 (rsa_stream w (rsa_calls w))) \<and>
     signature c = Some (k, Sha256) \<and>
     fs1 = fs0\<lparr>files := (files fs0)(caKeyPath m \<mapsto> privateKeyToPem k)\<rparr> \<and>
     fs2 = fs1\<lparr>files := (files fs1)(caCertPath m \<mapsto> certificateToPem c)\<rparr>"
  apply (simp add: generateCA_def generateKeyPair_def generateSerialNumber_def sign_def
                   createCertificate_def writeFileSync_def Let_def)
  apply (rule exI, intro conjI, rule refl)
    apply simp_all
  done

lemma initialize_generates:
  assumes "paths_distinct m" and "\<not> caExists m fs"
  shows "\<exists>fs0. files fs0 = files fs \<and>
           initialize m fs w
             = (Inr (), fst (generateCA m fs0 w),
                fs # (if existsSync fs (certsDir m) then [] else [fs0])
                   @ fst (snd (generateCA m fs0 w)),
                snd (snd (generateCA m fs0 w)))"
proof (cases "existsSync fs (certsDir m)")
  case True
  with assms(2) show ?thesis
    by (auto simp: initialize_def Let_def case_prod_beta)
next
  case False
  let ?fs0 = "mkdirSync (certsDir m) fs"
  have "\<not> caExists m ?fs0"
    using assms caExists_after_mkdir by blast
  with False have "initialize m fs w
             = (Inr (), fst (generateCA m ?fs0 w),
                fs # [?fs0] @ fst (snd (generateCA m ?fs0 w)),
                snd (snd (generateCA m ?fs0 w)))"
    by (simp add: initialize_def Let_def case_prod_beta)
  moreover have "files ?fs0 = files fs"
    by (simp add: mkdirSync_def)
  ultimately show ?thesis using False by auto
qed

text \<open>
  C5, as stated, fails: nothing is written to a temporary file and renamed. On a first
  run the file system passes through a state, the third of the four it takes, in which
  \<^verbatim>\<open>rootCA.key\<close> exists and \<^verbatim>\<open>rootCA.crt\<close> does not.
\<close>

theorem ca_files_counterexample:
  "length first_run_trace = 4 \<and>
   existsSync (first_run_trace ! 2) ''/data/certificates/rootCA.key'' \<and>
   \<not> existsSync (first_run_trace ! 2) ''/data/certificates/rootCA.crt''"
  by (simp add: first_run_trace_def first_run_def example_paths initialize_def caExists_def
                existsSync_def mkdirSync_def writeFileSync_def empty_install_def
                generateCA_def generateKeyPair_def generateSerialNumber_def Let_def)

text \<open>
  C5, amended: \<^verbatim>\<open>initialize\<close> generates a fresh RootCA if and only if at least one of
  the two files is missing. When both exist, no key is generated, no file is changed,
  and a successful load holds exactly the key and the certificate that the files encode.
  When one is missing, it succeeds with a new RSA-2048 key and a certificate signed with
  that key and SHA-256, and writes each file straight to its path, the key first: after
  the first write \<^verbatim>\<open>rootCA.key\<close> holds the new key while \<^verbatim>\<open>rootCA.crt\<close> is as it was,
  and after the second write both hold the new pair.
\<close>

theorem initialize_generates_iff_missing:
  assumes "paths_distinct m" and "initialize m fs w = (res, m', trace, w')"
  shows "(rsa_calls w' \<noteq> rsa_calls w \<longleftrightarrow> \<not> caExists m fs) \<and>
         (caExists m fs \<longrightarrow>
            w' = w \<and> (\<forall>st \<in> set trace. files st = files fs) \<and>
            (res = Inr () \<longrightarrow>
               (\<exists>k c. caKey m' = Some k \<and> caCert m' = Some c \<and>
                      files fs (caKeyPath m) = Some (privateKeyToPem k) \<and>
                      files fs (caCertPath m) = Some (certificateToPem c)))) \<and>
         (\<not> caExists m fs \<longrightarrow>
            res = Inr () \<and>
            (\<exists>k c before fs1 fs2.
               caKey m' = Some k \<and> caCert m' = Some c \<and>
               k = PrivateKey 2048 (rsa_stream w (rsa_calls w)) \<and>
               signature c = Some (k, Sha256) \<and>
               trace = before @ [fs1, fs2] \<and>
               (\<forall>st \<in> set before. files st = files fs) \<and>
               files fs1 = (files fs)(caKeyPath m \<mapsto> privateKeyToPem k) \<and>
               files fs2 = (files fs)(caKeyPath m \<mapsto> privateKeyToPem k,
                                      caCertPath m \<mapsto> certificateToPem c)))"
proof (cases "caExists m fs")
  case True
  from initialize_loads[OF assms(1) True, of w] obtain fs0 where
    f: "files fs0 = files fs" and
    i: "initialize m fs w
          = (fst (loadCA m fs0), snd (loadCA m fs0),
             fs # (if existsSync fs (certsDir m) then [] else [fs0]), w)"
    by blast
  from i assms(2) have r: "res = fst (loadCA m fs0)" "m' = snd (loadCA m fs0)"
    "trace = fs # (if existsSync fs (certsDir m) then [] else [fs0])" "w' = w"
    by simp_all
  have t: "\<forall>st \<in> set trace. files st = files fs"
    using r(3) f by auto
  have l: "res = Inr () \<longrightarrow>
             (\<exists>k c. caKey m' = Some k \<and> caCert m' = Some c \<and>
                    files fs (caKeyPath m) = Some (privateKeyToPem k) \<and>
                    files fs (caCertPath m) = Some (certificateToPem c))"
  proof
    assume "res = Inr ()"
    with r have "loadCA m fs0 = (Inr (), m')"
      by (metis prod.collapse)
    from loadCA_ok[OF this] f show
      "\<exists>k c. caKey m' = Some k \<and> caCert m' = Some c \<and>
             files fs (caKeyPath m) = Some (privateKeyToPem k) \<and>
             files fs (caCertPath m) = Some (certificateToPem c)"
      by simp
  qed
  from True r(4) t l show ?thesis
    by simp
next
  case False
  from initialize_generates[OF assms(1) False, of w] obtain fs0 where
    f: "files fs0 = files fs" and
    i: "initialize m fs w
          = (Inr (), fst (generateCA m fs0 w),
             fs # (if existsSync fs (certsDir m) then [] else [fs0])
                @ fst (snd (generateCA m fs0 w)),
             snd (snd (generateCA m fs0 w)))"
    by blast
  from generateCA_result[of m fs0 w] obtain k c fs1 fs2 where
    g: "generateCA m fs0 w
          = (m\<lparr>caKey := Some k, caCert := Some c\<rparr>, [fs1, fs2],
             w\<lparr>rsa_calls := Suc (rsa_calls w), random_calls := Suc (random_calls w)\<rparr>)" and
    k: "k = PrivateKey 2048 (rsa_stream w (rsa_calls w))" and
    s: "signature c = Some (k, Sha256)" and
    w1: "fs1 = fs0\<lparr>files := (files fs0)(caKeyPath m \<mapsto> privateKeyToPem k)\<rparr>" and
    w2: "fs2 = fs1\<lparr>files := (files fs1)(caCertPath m \<mapsto> certificateToPem c)\<rparr>"
    by blast
  let ?before = "fs # (if existsSync fs (certsDir m) then [] else [fs0])"
  from i g assms(2) have r: "res = Inr ()" "m' = m\<lparr>caKey := Some k, caCert := Some c\<rparr>"
    "trace = ?before @ [fs1, fs2]"
    "w' = w\<lparr>rsa_calls := Suc (rsa_calls w), random_calls := Suc (random_calls w)\<rparr>"
    by simp_all
  have b: "\<forall>st \<in> set ?before. files st = files fs"
    using f by auto
  have f1: "files fs1 = (files fs)(caKeyPath m \<mapsto> privateKeyToPem k)"
    using w1 f by simp
  have f2: "files fs2 = (files fs)(caKeyPath m \<mapsto> privateKeyToPem k,
                                   caCertPath m \<mapsto> certificateToPem c)"
    using w2 f1 by simp
  have ex: "\<exists>k c before fs1 fs2.
               caKey m' = Some k \<and> caCert m' = Some c \<and>
               k = PrivateKey 2048 (rsa_stream w (rsa_calls w)) \<and>
               signature c = Some (k, Sha256) \<and>
               trace = before @ [fs1, fs2] \<and>
               (\<forall>st \<in> set before. files st = files fs) \<and>
               files fs1 = (files fs)(caKeyPath m \<mapsto> privateKeyToPem k) \<and>
               files fs2 = (files fs)(caKeyPath m \<mapsto> privateKeyToPem k,
                                      caCertPath m \<mapsto> certificateToPem c)"
    apply (rule exI[of _ k])
    apply (rule exI[of _ c])
    apply (rule exI[of _ ?before])
    apply (rule exI[of _ fs1])
    apply (rule exI[of _ fs2])
    using r(2) r(3) k s b f1 f2 apply simp
    done
  from False r(1) r(4) ex show ?thesis
    by simp
qed

theorem initialize_generates_iff_missing_witness:
  "paths_distinct (new_CertificateManager ''/data'') \<and>
   \<not> caExists (new_CertificateManager ''/data'') empty_install \<and>
   rsa_calls world_after_first_run \<noteq> rsa_calls example_world \<and>
   caExists (new_CertificateManager ''/data'') (last first_run_trace) \<and>
   snd (snd (snd second_run)) = world_after_first_run \<and>
   caKey (fst (snd second_run)) = caKey loaded_manager"
proof -
  let ?m = "new_CertificateManager ''/data''"
  have p: "paths_distinct ?m"
    by (rule paths_distinct_new)
  have a: "\<not> caExists ?m empty_install"
    by (simp add: example_paths caExists_def existsSync_def empty_install_def)
  have i1: "initialize ?m empty_install example_world
              = (fst first_run, loaded_manager, first_run_trace, world_after_first_run)"
    by (simp add: loaded_manager_def first_run_trace_def world_after_first_run_def
                  first_run_def)
  have b: "caExists ?m (last first_run_trace)"
    by (simp add: first_run_trace_def first_run_def example_paths initialize_def caExists_def
                  existsSync_def mkdirSync_def writeFileSync_def empty_install_def
                  generateCA_def generateKeyPair_def generateSerialNumber_def Let_def)
  have i2: "initialize ?m (last first_run_trace) world_after_first_run
              = (fst second_run, fst (snd second_run), fst (snd (snd second_run)),
                 snd (snd (snd second_run)))"
    by (simp add: second_run_def)
  have ok: "fst second_run = Inr ()"
    by (simp add: second_run_def first_run_trace_def first_run_def example_paths
                  initialize_def caExists_def existsSync_def mkdirSync_def writeFileSync_def
                  readFileSync_def loadCA_def empty_install_def generateCA_def
                  generateKeyPair_def generateSerialNumber_def Let_def
                  privateKeyToPem_def certificateToPem_def privateKeyFromPem_def
                  certificateFromPem_def encodable_def encoded_def utc_time_def sign_def
                  createCertificate_def new_Date_def start_of_day_def days_in_month_def
                  is_leap_year_def example_world_def)
  have key_file: "files (last first_run_trace) ''/data/certificates/rootCA.key''
                    = Some (privateKeyToPem (PrivateKey 2048 1000))"
    by (simp add: first_run_trace_def first_run_def example_paths initialize_def caExists_def
                  existsSync_def mkdirSync_def writeFileSync_def empty_install_def
                  generateCA_def generateKeyPair_def generateSerialNumber_def Let_def
                  example_world_def)
  show ?thesis
    using p a b ok key_file example_ca_key
      initialize_generates_iff_missing [OF p i1]
      initialize_generates_iff_missing [OF p i2]
    by (auto simp: example_paths privateKeyToPem_def)
qed

end
